theory Spec2Isabelle
  imports Complex_Main "HOL-Library.AList"
begin

section \<open>Tokens, the pool and the asset ledger (demeter/uniswap/_typing.py)\<close>

text \<open>
  Python's \<open>Decimal\<close> values are modelled by the rational numbers they denote (\<open>rat\<close>).
  Sums, differences, quotients and comparisons are those of the rationals; the rounding of
  the arithmetic context to 28 significant digits is outside the model, so a statement
  about a quotient speaks of the exact quotient. Special values (NaN, infinities) are not
  represented.
\<close>

text \<open>
  Modelled from the spec: \<open>TokenInfo\<close> is imported from the package's top-level
  \<open>_typing\<close> module, which is not among the sources. The spec describes it as
  \<open>{name: string, scale: integer exponent}\<close>; the code reads the two fields as
  \<open>token.name\<close> and \<open>token.decimal\<close>.
\<close>

record TokenInfo =
  name :: string
  decimal :: nat

subsection \<open>UniV3Pool\<close>

text \<open>
  \<open>int(d)\<close> of a Decimal truncates towards zero.
\<close>

definition py_int :: "rat \<Rightarrow> int" where
  "py_int d = (if 0 \<le> d then \<lfloor>d\<rfloor> else \<lceil>d\<rceil>)"

record UniV3Pool =
  token0 :: TokenInfo
  token1 :: TokenInfo
  is_token0_base :: bool
  base_token :: TokenInfo
  tickSpacing :: int
  fee :: rat
  fee_rate :: rat

text \<open>
  \<open>UniV3Pool.__init__\<close>. The argument \<open>fee0\<close> is the value of \<open>Decimal(str(fee))\<close>, the
  decimal number that the caller's float prints as (0.05 is \<open>1/20\<close>). Such a number has
  at most 17 significant digits, so the products below are exact in the 28-digit context.
\<close>

definition UniV3Pool_init :: "TokenInfo \<Rightarrow> TokenInfo \<Rightarrow> rat \<Rightarrow> TokenInfo \<Rightarrow> UniV3Pool" where
  "UniV3Pool_init t0 t1 fee0 base_tok =
     \<lparr> token0 = t0,
       token1 = t1,
       is_token0_base = (base_tok = t0),
       base_token = base_tok,
       tickSpacing = py_int (fee0 * 200),
       fee = fee0 * 10000,
       fee_rate = fee0 / 100 \<rparr>"

subsection \<open>BrokerAsset\<close>

record BrokerAsset =
  token_info :: TokenInfo
  asset_name :: string
  asset_decimal :: nat
  balance :: rat

definition BrokerAsset_init :: "TokenInfo \<Rightarrow> rat \<Rightarrow> BrokerAsset" where
  "BrokerAsset_init token init_amount =
     \<lparr> token_info = token,
       asset_name = name token,
       asset_decimal = decimal token,
       balance = init_amount \<rparr>"

text \<open>
  The one error \<open>sub\<close> raises is a \<open>DemeterError\<close> whose message is
  \<open>"Insufficient balance, balance is {balance}{name}, but sub amount is {amount}{name}"\<close>.
  The constructor carries the three values the message interpolates: the balance, the
  token name and the requested amount.
\<close>

datatype DemeterError = Insufficient_balance rat string rat

text \<open>
  The source compares a Decimal with the float literal \<open>0.00001\<close>. Python compares the two
  by their exact values, and the float is the binary64 number nearest to \<open>1/100000\<close>, which
  is \<open>5902958103587057 / 2^69\<close>
  (\<open>0.000010000000000000000818030539140313095458623138256371021270751953125\<close>).
\<close>

definition float_0_00001 :: rat where
  "float_0_00001 = 5902958103587057 / 2 ^ 69"

definition add :: "BrokerAsset \<Rightarrow> rat \<Rightarrow> BrokerAsset" where
  "add self amount = self\<lparr>balance := balance self + amount\<rparr>"

text \<open>
  \<open>BrokerAsset.sub\<close> mutates the object and either returns it or raises. The model returns
  the object as it is when the call ends, together with the error raised, if any.
\<close>

definition sub :: "BrokerAsset \<Rightarrow> rat \<Rightarrow> bool \<Rightarrow> BrokerAsset \<times> DemeterError option" where
  "sub self amount allow_negative_balance =
     (let base = (if balance self \<noteq> 0 then balance self else amount) in
      if base = 0 then (self, None)
      else if allow_negative_balance then (self\<lparr>balance := balance self - amount\<rparr>, None)
      else if \<bar>(balance self - amount) / base\<bar> < float_0_00001
        then (self\<lparr>balance := 0\<rparr>, None)
      else if balance self - amount < 0
        then (self, Some (Insufficient_balance (balance self) (asset_name self) amount))
      else (self\<lparr>balance := balance self - amount\<rparr>, None))"

definition amount_in_wei :: "BrokerAsset \<Rightarrow> rat" where
  "amount_in_wei self = balance self * 10 ^ asset_decimal self"

text \<open>The token of the spec's scenario.\<close>

definition usdc :: TokenInfo where
  "usdc = \<lparr> name = ''usdc'', decimal = 6 \<rparr>"

section \<open>Column rules, resampling and gap filling (demeter/uniswap/data.py)\<close>

subsection \<open>The column rule table\<close>

text \<open>
  Modelled from the spec: \<open>Rule\<close> is imported from \<open>demeter.broker\<close>, which is not among
  the sources. \<open>data.py\<close> builds it with three positional arguments and reads them back as
  \<open>rule.agg\<close>, \<open>rule.fillna_method\<close> and \<open>rule.fillna_value\<close>; the spec names the rule kinds
  (sum, first, last, min, max), the forward-fill method and the fill value zero.
\<close>

record Rule =
  agg :: "string option"
  fillna_method :: "string option"
  fillna_value :: "int option"

definition DEFAULT_AGG_METHOD :: string where
  "DEFAULT_AGG_METHOD = ''first''"

definition EMPTY_RULE :: Rule where
  "EMPTY_RULE = \<lparr> agg = None, fillna_method = None, fillna_value = None \<rparr>"

datatype LineTypeEnum =
    timestamp | netAmount0 | netAmount1 | closeTick | openTick | lowestTick | highestTick
  | inAmount0 | inAmount1 | currentLiquidity | other

text \<open>The \<open>.name\<close> attribute of an enum member.\<close>

fun LineTypeEnum_name :: "LineTypeEnum \<Rightarrow> string" where
  "LineTypeEnum_name timestamp = ''timestamp''"
| "LineTypeEnum_name netAmount0 = ''netAmount0''"
| "LineTypeEnum_name netAmount1 = ''netAmount1''"
| "LineTypeEnum_name closeTick = ''closeTick''"
| "LineTypeEnum_name openTick = ''openTick''"
| "LineTypeEnum_name lowestTick = ''lowestTick''"
| "LineTypeEnum_name highestTick = ''highestTick''"
| "LineTypeEnum_name inAmount0 = ''inAmount0''"
| "LineTypeEnum_name inAmount1 = ''inAmount1''"
| "LineTypeEnum_name currentLiquidity = ''currentLiquidity''"
| "LineTypeEnum_name other = ''other''"

definition LINE_RULES :: "(string \<times> Rule) list" where
  "LINE_RULES =
     [ (LineTypeEnum_name timestamp, EMPTY_RULE),
       (LineTypeEnum_name netAmount0,
          \<lparr> agg = Some ''sum'', fillna_method = None, fillna_value = Some 0 \<rparr>),
       (LineTypeEnum_name netAmount1,
          \<lparr> agg = Some ''sum'', fillna_method = None, fillna_value = Some 0 \<rparr>),
       (LineTypeEnum_name closeTick,
          \<lparr> agg = Some ''last'', fillna_method = Some ''ffill'', fillna_value = None \<rparr>),
       (LineTypeEnum_name openTick,
          \<lparr> agg = Some ''first'', fillna_method = Some ''ffill'', fillna_value = None \<rparr>),
       (LineTypeEnum_name lowestTick,
          \<lparr> agg = Some ''min'', fillna_method = Some ''ffill'', fillna_value = None \<rparr>),
       (LineTypeEnum_name highestTick,
          \<lparr> agg = Some ''max'', fillna_method = Some ''ffill'', fillna_value = None \<rparr>),
       (LineTypeEnum_name inAmount0,
          \<lparr> agg = Some ''sum'', fillna_method = None, fillna_value = Some 0 \<rparr>),
       (LineTypeEnum_name inAmount1,
          \<lparr> agg = Some ''sum'', fillna_method = None, fillna_value = Some 0 \<rparr>),
       (LineTypeEnum_name currentLiquidity,
          \<lparr> agg = Some ''sum'', fillna_method = Some ''ffill'', fillna_value = None \<rparr>) ]"

definition get_line_rules_safe :: "string \<Rightarrow> Rule" where
  "get_line_rules_safe key =
     (case map_of LINE_RULES key of Some r \<Rightarrow> r | None \<Rightarrow> EMPTY_RULE)"

subsection \<open>The pandas operations that data.py calls\<close>

text \<open>
  pandas is a library outside the repository. This subsection states the behaviour of the
  operations \<open>data.py\<close> calls, for the arguments it passes. A cell holds an integer (the
  raw columns are declared \<open>int\<close>) or is missing (\<open>None\<close>, pandas' NaN); how a column is
  stored matters for its sums only and is described with \<open>pd_sum\<close>. A frame has its index
  (the bar or record timestamps, as integers) and its columns in order.
\<close>

type_synonym cell = "int option"

type_synonym Series = "cell list"

record DataFrame =
  index :: "int list"
  columns :: "(string \<times> Series) list"

datatype pd_error =
    Must_specify_fill_value_or_method
  | Cannot_specify_both_value_and_method
  | Invalid_fill_method string
  | KeyError string

text \<open>What can be passed as the fill value: a scalar, or a series with the frame's index.\<close>

datatype fill_arg = Scalar int | Values Series

text \<open>\<open>df.columns\<close>, \<open>df[c]\<close> and \<open>df[c] = s\<close>.\<close>

definition column_names :: "DataFrame \<Rightarrow> string list" where
  "column_names df = map fst (columns df)"

definition getitem :: "DataFrame \<Rightarrow> string \<Rightarrow> pd_error + Series" where
  "getitem df c = (case map_of (columns df) c of None \<Rightarrow> Inl (KeyError c) | Some s \<Rightarrow> Inr s)"

definition setitem :: "DataFrame \<Rightarrow> string \<Rightarrow> Series \<Rightarrow> DataFrame" where
  "setitem df c s = df\<lparr>columns := AList.update c s (columns df)\<rparr>"

text \<open>
  Forward fill: a missing cell takes the last cell before it that is present; cells before
  the first present one stay missing. \<open>ffill\<close> carries the last present cell seen so far.
  Backward fill is the mirror image.
\<close>

fun ffill :: "cell \<Rightarrow> Series \<Rightarrow> Series" where
  "ffill prev [] = []"
| "ffill prev (None # xs) = prev # ffill prev xs"
| "ffill prev (Some v # xs) = Some v # ffill (Some v) xs"

definition bfill :: "Series \<Rightarrow> Series" where
  "bfill xs = rev (ffill None (rev xs))"

text \<open>Filling with a scalar, and with the cell of another series at the same position.\<close>

definition fill_scalar :: "Series \<Rightarrow> int \<Rightarrow> Series" where
  "fill_scalar xs c = map (\<lambda>x. case x of None \<Rightarrow> Some c | Some v \<Rightarrow> Some v) xs"

fun fill_from :: "Series \<Rightarrow> Series \<Rightarrow> Series" where
  "fill_from [] ys = []"
| "fill_from (x # xs) [] = x # xs"
| "fill_from (None # xs) (y # ys) = y # fill_from xs ys"
| "fill_from (Some v # xs) (y # ys) = Some v # fill_from xs ys"

text \<open>
  \<open>Series.fillna(value, method, axis, inplace, limit, downcast)\<close> with \<open>axis\<close>, \<open>inplace\<close>,
  \<open>limit\<close> and \<open>downcast\<close> at their defaults (\<open>None\<close>, \<open>False\<close>, \<open>None\<close>, \<open>None\<close>), which is
  how \<open>fillna\<close> below passes them on when its caller leaves them out. pandas refuses a
  call that gives neither a value nor a method, and one that gives both.
\<close>

definition Series_fillna :: "Series \<Rightarrow> fill_arg option \<Rightarrow> string option \<Rightarrow> pd_error + Series" where
  "Series_fillna s v m =
     (case (v, m) of
        (None, None) \<Rightarrow> Inl Must_specify_fill_value_or_method
      | (None, Some f) \<Rightarrow>
          if f \<in> set [''ffill'', ''pad''] then Inr (ffill None s)
          else if f \<in> set [''bfill'', ''backfill''] then Inr (bfill s)
          else Inl (Invalid_fill_method f)
      | (Some (Scalar c), None) \<Rightarrow> Inr (fill_scalar s c)
      | (Some (Values t), None) \<Rightarrow> Inr (fill_from s t)
      | (Some a, Some f) \<Rightarrow> Inl Cannot_specify_both_value_and_method)"

text \<open>
  The aggregations of a resampler over the cells of one bar. \<open>sum\<close> skips missing cells
  and is 0 for a bar without cells; \<open>first\<close>, \<open>last\<close>, \<open>min\<close> and \<open>max\<close> skip missing
  cells and are missing when no cell is present.
\<close>

definition present :: "Series \<Rightarrow> int list" where
  "present xs = concat (map (\<lambda>x. case x of None \<Rightarrow> [] | Some v \<Rightarrow> [v]) xs)"

text \<open>
  Sums are machine sums, and the machine type is that of the column. A column all of whose
  cells are present and lie in the int64 range is stored as int64: its sums are taken in
  int64 and wrap around (two cells \<open>2^62\<close> sum to \<open>-2^63\<close>). Any other column is stored as
  float64, a missing cell being NaN (or as Python objects when a cell is beyond 64 bits).
  There a sum of integer cells is exact as long as the absolute values of the summands add
  up to at most \<open>2^53\<close>, since every partial sum is then an integer that float64 holds
  exactly, in whatever order the cells are added. Beyond that bound the result depends on
  rounding and on the order of summation; it is the parameter \<open>fsum\<close>.
\<close>

definition int64_column :: "Series \<Rightarrow> bool" where
  "int64_column col =
     list_all (\<lambda>x. case x of None \<Rightarrow> False | Some v \<Rightarrow> - (2 ^ 63) \<le> v \<and> v < 2 ^ 63) col"

definition wrap_int64 :: "int \<Rightarrow> int" where
  "wrap_int64 n = (n + 2 ^ 63) mod 2 ^ 64 - 2 ^ 63"

definition pd_sum :: "(int list \<Rightarrow> int) \<Rightarrow> Series \<Rightarrow> Series \<Rightarrow> cell" where
  "pd_sum fsum col xs =
     (let vs = present xs in
      if int64_column col then Some (wrap_int64 (sum_list vs))
      else if sum_list (map abs vs) \<le> 2 ^ 53 then Some (sum_list vs)
      else Some (fsum vs))"

definition pd_first :: "Series \<Rightarrow> cell" where
  "pd_first xs = (case present xs of [] \<Rightarrow> None | v # vs \<Rightarrow> Some v)"

definition pd_last :: "Series \<Rightarrow> cell" where
  "pd_last xs = (case rev (present xs) of [] \<Rightarrow> None | v # vs \<Rightarrow> Some v)"

definition pd_min :: "Series \<Rightarrow> cell" where
  "pd_min xs = (case present xs of [] \<Rightarrow> None | v # vs \<Rightarrow> Some (fold min vs v))"

definition pd_max :: "Series \<Rightarrow> cell" where
  "pd_max xs = (case present xs of [] \<Rightarrow> None | v # vs \<Rightarrow> Some (fold max vs v))"

text \<open>
  The aggregation named by a string, applied to the cells \<open>xs\<close> of one bar of the column
  \<open>col\<close>. The five names of the rule table are written out; what any other name computes is
  the parameter \<open>named\<close>.
\<close>

definition pd_agg ::
  "(int list \<Rightarrow> int) \<Rightarrow> (string \<Rightarrow> Series \<Rightarrow> cell) \<Rightarrow> Series \<Rightarrow> string \<Rightarrow> Series \<Rightarrow> cell" where
  "pd_agg fsum named col m xs =
     (if m = ''sum'' then pd_sum fsum col xs
      else if m = ''first'' then pd_first xs
      else if m = ''last'' then pd_last xs
      else if m = ''min'' then pd_min xs
      else if m = ''max'' then pd_max xs
      else named m xs)"

text \<open>
  \<open>df.resample(rule, axis, closed, label, convention, kind, loffset, base, on, level,
  origin, offset)\<close> groups the rows into bars by their index. The grouping those arguments
  describe is the parameter \<open>bar_of\<close>, which sends a timestamp to the number of its bar
  (for bars of width \<open>w\<close> from origin \<open>o\<close>: \<open>(t - o) div w\<close>). The result has one row for
  every bar from the first to the last bar that holds a row, empty bars included.
\<close>

definition bar_numbers :: "(int \<Rightarrow> int) \<Rightarrow> int list \<Rightarrow> int list" where
  "bar_numbers bar_of idx =
     (case map bar_of idx of
        [] \<Rightarrow> []
      | b # bs \<Rightarrow> [fold min bs b .. fold max bs b])"

definition bar_cells :: "(int \<Rightarrow> int) \<Rightarrow> int list \<Rightarrow> Series \<Rightarrow> int \<Rightarrow> Series" where
  "bar_cells bar_of idx s k = map snd (filter (\<lambda>(t, x). bar_of t = k) (zip idx s))"

text \<open>\<open>resampler.agg(agg_dict)\<close>: one output column for each entry of the dictionary.\<close>

fun agg_columns ::
  "(int \<Rightarrow> int) \<Rightarrow> (int list \<Rightarrow> int) \<Rightarrow> (string \<Rightarrow> Series \<Rightarrow> cell) \<Rightarrow> DataFrame \<Rightarrow> (string \<times> string) list
     \<Rightarrow> pd_error + (string \<times> Series) list" where
  "agg_columns bar_of fsum named df [] = Inr []"
| "agg_columns bar_of fsum named df ((c, m) # rest) =
     (case getitem df c of
        Inl e \<Rightarrow> Inl e
      | Inr s \<Rightarrow>
          (case agg_columns bar_of fsum named df rest of
             Inl e \<Rightarrow> Inl e
           | Inr cols \<Rightarrow>
               Inr ((c, map (\<lambda>k. pd_agg fsum named s m (bar_cells bar_of (index df) s k))
                          (bar_numbers bar_of (index df))) # cols)))"

definition Resampler_agg ::
  "(int \<Rightarrow> int) \<Rightarrow> (int list \<Rightarrow> int) \<Rightarrow> (string \<Rightarrow> Series \<Rightarrow> cell) \<Rightarrow> DataFrame \<Rightarrow> (string \<times> string) list
     \<Rightarrow> pd_error + DataFrame" where
  "Resampler_agg bar_of fsum named df agg_dict =
     (case agg_columns bar_of fsum named df agg_dict of
        Inl e \<Rightarrow> Inl e
      | Inr cols \<Rightarrow> Inr \<lparr> index = bar_numbers bar_of (index df), columns = cols \<rparr>)"

subsection \<open>resample\<close>

text \<open>
  The loop of \<open>resample\<close> that builds \<open>agg_dict\<close>, one assignment for each column name.
  \<open>agg1\<close> is the caller's dictionary after \<open>agg = agg if agg else {}\<close>.
\<close>

fun agg_dict_loop ::
  "string list \<Rightarrow> (string \<times> string) list \<Rightarrow> (string \<times> string) list \<Rightarrow> (string \<times> string) list" where
  "agg_dict_loop [] agg1 agg_dict = agg_dict"
| "agg_dict_loop (column_name # rest) agg1 agg_dict =
     (let rule = get_line_rules_safe column_name;
          agg_method =
            (case agg rule of
               Some m \<Rightarrow> m
             | None \<Rightarrow>
                 (case map_of agg1 column_name of
                    Some m \<Rightarrow> m
                  | None \<Rightarrow> DEFAULT_AGG_METHOD))
      in agg_dict_loop rest agg1 (AList.update column_name agg_method agg_dict))"

definition resample_agg_dict :: "DataFrame \<Rightarrow> (string \<times> string) list option \<Rightarrow> (string \<times> string) list" where
  "resample_agg_dict df agg0 =
     (let agg1 = (case agg0 of None \<Rightarrow> [] | Some d \<Rightarrow> d)
      in agg_dict_loop (column_names df) agg1 [])"

definition resample ::
  "DataFrame \<Rightarrow> (int \<Rightarrow> int) \<Rightarrow> (int list \<Rightarrow> int) \<Rightarrow> (string \<Rightarrow> Series \<Rightarrow> cell)
     \<Rightarrow> (string \<times> string) list option
     \<Rightarrow> pd_error + DataFrame" where
  "resample df bar_of fsum named agg0 =
     Resampler_agg bar_of fsum named df (resample_agg_dict df agg0)"

subsection \<open>fillna\<close>

text \<open>Python's truth value of a string or \<open>None\<close>.\<close>

definition truthy :: "string option \<Rightarrow> bool" where
  "truthy s = (case s of None \<Rightarrow> False | Some t \<Rightarrow> t \<noteq> [])"

text \<open>
  The body of the loop of \<open>fillna\<close> for one column name other than the closing tick: the
  series that is assigned to \<open>new_df[column_name]\<close>, or the exception of the pandas call.
  \<open>v\<close> and \<open>m\<close> are the caller's \<open>value\<close> and \<open>method\<close>.
\<close>

definition fillna_column ::
  "DataFrame \<Rightarrow> fill_arg option \<Rightarrow> string option \<Rightarrow> string \<Rightarrow> pd_error + Series" where
  "fillna_column new_df v m column_name =
     (let rule = get_line_rules_safe column_name in
      if \<not> truthy (fillna_method rule) \<and> fillna_value rule = None then
        (case getitem new_df column_name of
           Inl e \<Rightarrow> Inl e
         | Inr s \<Rightarrow> Series_fillna s v m)
      else
        let current_method = (if truthy (fillna_method rule) then fillna_method rule else m);
            current_value = (case fillna_value rule of Some c \<Rightarrow> Some (Scalar c) | None \<Rightarrow> v)
        in
        if column_name \<in> set [LineTypeEnum_name openTick,
                                LineTypeEnum_name highestTick,
                                LineTypeEnum_name lowestTick]
           \<and> LineTypeEnum_name closeTick \<in> set (column_names new_df)
        then
          (case getitem new_df (LineTypeEnum_name closeTick) of
             Inl e \<Rightarrow> Inl e
           | Inr close \<Rightarrow>
               (case getitem new_df column_name of
                  Inl e \<Rightarrow> Inl e
                | Inr s \<Rightarrow> Series_fillna s (Some (Values close)) None))
        else
          (case getitem new_df column_name of
             Inl e \<Rightarrow> Inl e
           | Inr s \<Rightarrow> Series_fillna s current_value current_method))"

text \<open>
  The loop over the column names: the closing tick is skipped, every other column is
  replaced by its filled series; the first exception ends the loop.
\<close>

fun fillna_loop ::
  "string list \<Rightarrow> DataFrame \<Rightarrow> fill_arg option \<Rightarrow> string option \<Rightarrow> pd_error + DataFrame" where
  "fillna_loop [] new_df v m = Inr new_df"
| "fillna_loop (column_name # rest) new_df v m =
     (if column_name = LineTypeEnum_name closeTick then fillna_loop rest new_df v m
      else
        (case fillna_column new_df v m column_name of
           Inl e \<Rightarrow> Inl e
         | Inr s' \<Rightarrow> fillna_loop rest (setitem new_df column_name s') v m))"

text \<open>
  \<open>fillna(df, value, method)\<close>, with \<open>axis\<close>, \<open>inplace\<close>, \<open>limit\<close> and \<open>downcast\<close> left at
  their defaults. The closing tick is filled first, then the loop runs over all columns.
\<close>

definition fillna :: "DataFrame \<Rightarrow> fill_arg option \<Rightarrow> string option \<Rightarrow> pd_error + DataFrame" where
  "fillna df v m =
     (let new_df = df in
      case (if LineTypeEnum_name closeTick \<in> set (column_names new_df)
            then (case getitem new_df (LineTypeEnum_name closeTick) of
                    Inl e \<Rightarrow> Inl e
                  | Inr s \<Rightarrow>
                      (case Series_fillna s None
                              (fillna_method (get_line_rules_safe (LineTypeEnum_name closeTick))) of
                         Inl e \<Rightarrow> Inl e
                       | Inr s' \<Rightarrow> Inr (setitem new_df (LineTypeEnum_name closeTick) s')))
            else Inr new_df) of
        Inl e \<Rightarrow> Inl e
      | Inr new_df \<Rightarrow> fillna_loop (column_names new_df) new_df v m)"

subsection \<open>Well-formed frames\<close>

text \<open>
  A pandas frame as \<open>data.py\<close> receives it: the column names are distinct and every column
  has one cell for each entry of the index.
\<close>

definition wf_frame :: "DataFrame \<Rightarrow> bool" where
  "wf_frame df \<longleftrightarrow>
     distinct (column_names df) \<and> list_all (\<lambda>(c, s). length s = length (index df)) (columns df)"

text \<open>The columns whose registered fill value is zero, and the tick columns filled from the closing tick.\<close>

definition zero_fill_columns :: "string list" where
  "zero_fill_columns =
     [LineTypeEnum_name netAmount0, LineTypeEnum_name netAmount1,
      LineTypeEnum_name inAmount0, LineTypeEnum_name inAmount1]"

definition tick_columns :: "string list" where
  "tick_columns =
     [LineTypeEnum_name openTick, LineTypeEnum_name highestTick, LineTypeEnum_name lowestTick]"


subsection \<open>Vocabulary and sample tables\<close>

text \<open>The recognized columns: the closing tick, the tick-derived columns, the zero-fill columns and the liquidity.\<close>

definition recognized_columns :: "string list" where
  "recognized_columns =
     LineTypeEnum_name closeTick # tick_columns @ zero_fill_columns
       @ [LineTypeEnum_name currentLiquidity]"

text \<open>
  Sample inputs. \<open>raw_example\<close> holds the two records of the spec's scenario (timestamp 0,
  closing ticks 100 and missing, net amounts 5 and 3) and two later ones; \<open>minute_bar\<close>
  groups timestamps in seconds into bars of one minute; \<open>no_named_agg\<close> stands for no
  aggregation beyond the five of the rule table. \<open>gap_raw_example\<close> is a raw table whose
  first record has no ticks, \<open>gap_bars_example\<close> its bars and \<open>gap_filled_example\<close> the bars
  after \<open>fillna\<close>. \<open>overflow_example\<close> holds two records of one bar with net amounts \<open>2^62\<close>.
\<close>

definition raw_example :: DataFrame where
  "raw_example =
     \<lparr> index = [0, 0, 130, 200],
       columns = [(''closeTick'', [Some 100, None, Some 7, None]),
                  (''netAmount0'', [Some 5, Some 3, None, Some 2]),
                  (''volume'', [Some 1, Some 2, Some 3, Some 4])] \<rparr>"

definition minute_bar :: "int \<Rightarrow> int" where
  "minute_bar t = t div 60"

definition no_named_agg :: "string \<Rightarrow> Series \<Rightarrow> cell" where
  "no_named_agg m xs = None"

definition gap_raw_example :: DataFrame where
  "gap_raw_example =
     \<lparr> index = [10, 70, 190],
       columns = [(''closeTick'', [None, Some 5, Some 8]),
                  (''openTick'', [None, Some 4, Some 6]),
                  (''lowestTick'', [None, Some 3, Some 6]),
                  (''highestTick'', [None, Some 9, Some 8]),
                  (''netAmount0'', [Some 5, Some 3, None]),
                  (''netAmount1'', [Some 1, None, Some 2]),
                  (''inAmount0'', [Some 5, Some 3, Some 0]),
                  (''inAmount1'', [Some 1, Some 0, Some 2]),
                  (''currentLiquidity'', [Some 7, Some 7, Some 8])] \<rparr>"

definition gap_bars_example :: DataFrame where
  "gap_bars_example =
     \<lparr> index = [0, 1, 2, 3],
       columns = [(''closeTick'', [None, Some 5, None, Some 8]),
                  (''openTick'', [None, Some 4, None, Some 6]),
                  (''lowestTick'', [None, Some 3, None, Some 6]),
                  (''highestTick'', [None, Some 9, None, Some 8]),
                  (''netAmount0'', [Some 5, Some 3, Some 0, Some 0]),
                  (''netAmount1'', [Some 1, Some 0, Some 0, Some 2]),
                  (''inAmount0'', [Some 5, Some 3, Some 0, Some 0]),
                  (''inAmount1'', [Some 1, Some 0, Some 0, Some 2]),
                  (''currentLiquidity'', [Some 7, Some 7, Some 0, Some 8])] \<rparr>"

definition gap_filled_example :: DataFrame where
  "gap_filled_example =
     \<lparr> index = [0, 1, 2, 3],
       columns = [(''closeTick'', [None, Some 5, Some 5, Some 8]),
                  (''openTick'', [None, Some 4, Some 5, Some 6]),
                  (''lowestTick'', [None, Some 3, Some 5, Some 6]),
                  (''highestTick'', [None, Some 9, Some 5, Some 8]),
                  (''netAmount0'', [Some 5, Some 3, Some 0, Some 0]),
                  (''netAmount1'', [Some 1, Some 0, Some 0, Some 2]),
                  (''inAmount0'', [Some 5, Some 3, Some 0, Some 0]),
                  (''inAmount1'', [Some 1, Some 0, Some 0, Some 2]),
                  (''currentLiquidity'', [Some 7, Some 7, Some 0, Some 8])] \<rparr>"


definition bars_example :: DataFrame where
  "bars_example =
     \<lparr> index = [0, 1, 2],
       columns = [(''closeTick'', [None, Some 5, None]),
                  (''openTick'', [None, None, Some 9]),
                  (''netAmount0'', [Some 5, None, None]),
                  (''currentLiquidity'', [None, Some 3, None])] \<rparr>"

definition filled_example :: DataFrame where
  "filled_example =
     \<lparr> index = [0, 1, 2],
       columns = [(''closeTick'', [None, Some 5, Some 5]),
                  (''openTick'', [None, Some 5, Some 9]),
                  (''netAmount0'', [Some 5, Some 0, Some 0]),
                  (''currentLiquidity'', [None, Some 3, Some 3])] \<rparr>"

definition ticks_only_example :: DataFrame where
  "ticks_only_example =
     \<lparr> index = [0, 1, 2], columns = [(''openTick'', [Some 1, None, Some 3])] \<rparr>"

definition flows_example :: DataFrame where
  "flows_example =
     \<lparr> index = [0, 1, 2], columns = [(''netAmount0'', [Some 5, None, Some 2])] \<rparr>"

section \<open>Properties of the pool\<close>

lemma py_int_nonneg: "0 \<le> d \<Longrightarrow> py_int d = \<lfloor>d\<rfloor>"
  by (simp add: py_int_def)

text \<open>
  C9. For every non-negative fee tier \<open>f\<close> given as a percent, the constructed pool has
  \<open>tickSpacing = floor (f * 200)\<close>, an integer computed over exact decimal arithmetic;
  the fee tiers 0.05, 0.3 and 1 give 10, 60 and 200.
\<close>

theorem tickSpacing_floor:
  assumes "0 \<le> f"
  shows "tickSpacing (UniV3Pool_init t0 t1 f b) = \<lfloor>f * 200\<rfloor>
       \<and> tickSpacing (UniV3Pool_init t0 t1 (5 / 100) b) = 10
       \<and> tickSpacing (UniV3Pool_init t0 t1 (3 / 10) b) = 60
       \<and> tickSpacing (UniV3Pool_init t0 t1 1 b) = 200"
  using assms by (simp add: UniV3Pool_init_def py_int_def)

theorem tickSpacing_floor_witness:
  "(0::rat) \<le> 5 / 100 \<and> tickSpacing (UniV3Pool_init usdc usdc (5 / 100) usdc) = \<lfloor>(5 / 100 :: rat) * 200\<rfloor>
   \<and> \<lfloor>(5 / 100 :: rat) * 200\<rfloor> = 10"
proof -
  have h: "(0::rat) \<le> 5 / 100" by simp
  from tickSpacing_floor [OF h, of usdc usdc usdc] show ?thesis by simp
qed

section \<open>Properties of the asset ledger\<close>

text \<open>The float literal lies strictly above \<open>1/100000\<close>, by less than \<open>1e-21\<close>.\<close>

lemma float_0_00001_above: "1 / 100000 < float_0_00001"
  by (simp add: float_0_00001_def)

lemma float_0_00001_below: "float_0_00001 < 1 / 100000 + 1 / 10 ^ 21"
  by (simp add: float_0_00001_def)

text \<open>With \<open>allow_negative_balance = False\<close> and not both numbers zero, \<open>sub\<close> is a three-way choice.\<close>

lemma sub_checked:
  assumes "\<not> (balance self = 0 \<and> amount = 0)"
  shows "sub self amount False =
     (if \<bar>(balance self - amount) / (if balance self \<noteq> 0 then balance self else amount)\<bar> < float_0_00001
        then (self\<lparr>balance := 0\<rparr>, None)
      else if balance self - amount < 0
        then (self, Some (Insufficient_balance (balance self) (asset_name self) amount))
      else (self\<lparr>balance := balance self - amount\<rparr>, None))"
  using assms unfolding sub_def Let_def by auto

text \<open>
  C1, as stated, at a negative balance. The balance \<open>-100\<close> is reached from an empty
  ledger by a debit of 100 with \<open>allow_negative_balance = True\<close>. For a debit of 5 the
  claim's quantity \<open>|B - A| / base\<close> is \<open>105 / (-100)\<close>, below \<open>1/100000\<close>, yet the
  debit raises and leaves the balance at \<open>-100\<close>: the code takes the absolute value of the
  quotient, not of the numerator alone.
\<close>

theorem sub_snap_counterexample:
  "balance (fst (sub (BrokerAsset_init usdc 0) 100 True)) = - 100
   \<and> \<not> (- 100 = (0::rat) \<and> 5 = (0::rat))
   \<and> \<bar>(- 100) - 5\<bar> / (- 100) < (1 / 100000 :: rat)
   \<and> sub (fst (sub (BrokerAsset_init usdc 0) 100 True)) 5 False
       = (BrokerAsset_init usdc (- 100), Some (Insufficient_balance (- 100) ''usdc'' 5))"
  by (simp add: sub_def BrokerAsset_init_def usdc_def float_0_00001_def)

text \<open>
  C1 (amended). For every asset ledger with balance \<open>B\<close> and every debit of amount \<open>A\<close>
  with \<open>allow_negative = false\<close>, where \<open>B\<close> and \<open>A\<close> are not both zero: if
  \<open>|(B - A) / base| < 1e-5\<close> (\<open>base = B\<close> when \<open>B\<close> is nonzero, otherwise \<open>A\<close>), the debit
  sets the stored balance to exactly zero and raises no error, also when \<open>A\<close> slightly
  exceeds \<open>B\<close> (balance 100, debit 100.00003).
\<close>

theorem sub_snaps_to_zero:
  assumes "\<not> (balance self = 0 \<and> amount = 0)"
    and "\<bar>(balance self - amount) / (if balance self \<noteq> 0 then balance self else amount)\<bar>
           < 1 / 100000"
  shows "sub self amount False = (self\<lparr>balance := 0\<rparr>, None)"
proof -
  let ?base = "if balance self \<noteq> 0 then balance self else amount"
  from assms(1) have nz: "?base \<noteq> 0" by auto
  from assms(2) float_0_00001_above
  have "\<bar>(balance self - amount) / ?base\<bar> < float_0_00001" by linarith
  with nz show ?thesis by (simp add: sub_def Let_def)
qed

theorem sub_snaps_to_zero_witness:
  "\<not> (balance (BrokerAsset_init usdc 100) = 0 \<and> (10000003 / 100000 :: rat) = 0)
   \<and> \<bar>(100 - 10000003 / 100000) / 100\<bar> < (1 / 100000 :: rat)
   \<and> sub (BrokerAsset_init usdc 100) (10000003 / 100000) False
       = (BrokerAsset_init usdc 0, None)"
  using sub_snaps_to_zero [of "BrokerAsset_init usdc 100" "10000003 / 100000"]
  by (simp add: BrokerAsset_init_def)

text \<open>
  C2, as stated, at two inputs. Balance 100000 and debit 100001: \<open>B - A < 0\<close> and
  \<open>|B - A| / base\<close> is exactly \<open>1/100000\<close>, so the claim asks for the error, but the float
  literal is larger than \<open>1/100000\<close> and the balance is set to zero with no error. Balance
  \<open>-100\<close> and debit 5: the claim's \<open>|B - A| / base\<close> is negative, so the claim asks for no
  error, but the debit raises.
\<close>

theorem sub_raise_counterexample:
  "(100000 - 100001 < (0::rat)
    \<and> (1 / 100000 :: rat) \<le> \<bar>100000 - 100001\<bar> / 100000
    \<and> sub (BrokerAsset_init usdc 100000) 100001 False = (BrokerAsset_init usdc 0, None))
   \<and> (\<not> (1 / 100000 :: rat) \<le> \<bar>(- 100) - 5\<bar> / (- 100)
    \<and> sub (BrokerAsset_init usdc (- 100)) 5 False
        = (BrokerAsset_init usdc (- 100), Some (Insufficient_balance (- 100) ''usdc'' 5)))"
  by (simp add: sub_def BrokerAsset_init_def usdc_def float_0_00001_def)

text \<open>
  C2 (amended). For every asset ledger with balance \<open>B\<close> and every debit of amount \<open>A\<close>
  with \<open>allow_negative = false\<close>, where \<open>B\<close> and \<open>A\<close> are not both zero: if the debit raises,
  then \<open>B - A < 0\<close> and \<open>|(B - A) / base| \<ge> 1e-5\<close>, the error carries the balance, the token
  name and the requested amount, and the stored balance is unchanged; and the debit does
  raise whenever \<open>B - A < 0\<close> and \<open>|(B - A) / base| \<ge> 1e-5 + 1e-21\<close>. (The float literal
  \<open>0.00001\<close> lies between \<open>1e-5\<close> and \<open>1e-5 + 1e-21\<close>; what happens to a relative
  difference in that narrow band is left open.)
\<close>

theorem sub_raises_insufficient:
  assumes "\<not> (balance self = 0 \<and> amount = 0)"
  shows "(snd (sub self amount False) \<noteq> None \<longrightarrow>
            balance self - amount < 0
          \<and> 1 / 100000 \<le> \<bar>(balance self - amount) / (if balance self \<noteq> 0 then balance self else amount)\<bar>
          \<and> sub self amount False
              = (self, Some (Insufficient_balance (balance self) (asset_name self) amount)))
       \<and> (balance self - amount < 0
          \<and> 1 / 100000 + 1 / 10 ^ 21
               \<le> \<bar>(balance self - amount) / (if balance self \<noteq> 0 then balance self else amount)\<bar>
          \<longrightarrow> sub self amount False
              = (self, Some (Insufficient_balance (balance self) (asset_name self) amount)))"
proof -
  define q where
    "q = \<bar>(balance self - amount) / (if balance self \<noteq> 0 then balance self else amount)\<bar>"
  define d where "d = balance self - amount"
  define lo :: rat where "lo = 1 / 100000"
  define hi :: rat where "hi = 1 / 100000 + 1 / 10 ^ 21"
  have eq: "sub self amount False =
     (if q < float_0_00001 then (self\<lparr>balance := 0\<rparr>, None)
      else if d < 0
        then (self, Some (Insufficient_balance (balance self) (asset_name self) amount))
      else (self\<lparr>balance := d\<rparr>, None))"
    unfolding q_def d_def by (rule sub_checked [OF assms])
  have lo: "lo < float_0_00001" unfolding lo_def by (rule float_0_00001_above)
  have hi: "float_0_00001 < hi" unfolding hi_def by (rule float_0_00001_below)
  have "(snd (sub self amount False) \<noteq> None \<longrightarrow>
            d < 0 \<and> lo \<le> q
          \<and> sub self amount False
              = (self, Some (Insufficient_balance (balance self) (asset_name self) amount)))
       \<and> (d < 0 \<and> hi \<le> q
          \<longrightarrow> sub self amount False
              = (self, Some (Insufficient_balance (balance self) (asset_name self) amount)))"
  proof (cases "q < float_0_00001")
    case True
    with hi have "\<not> hi \<le> q" by linarith
    with True show ?thesis unfolding eq by simp
  next
    case False
    with lo have "lo \<le> q" by linarith
    with False show ?thesis unfolding eq by simp
  qed
  then show ?thesis unfolding q_def d_def lo_def hi_def .
qed

theorem sub_raises_insufficient_witness:
  "\<not> (balance (BrokerAsset_init usdc 100) = 0 \<and> (200::rat) = 0)
   \<and> balance (BrokerAsset_init usdc 100) - 200 < 0
   \<and> (1 / 100000 + 1 / 10 ^ 21 :: rat) \<le> \<bar>(100 - 200) / 100\<bar>
   \<and> sub (BrokerAsset_init usdc 100) 200 False
       = (BrokerAsset_init usdc 100, Some (Insufficient_balance 100 ''usdc'' 200))
   \<and> balance (fst (sub (BrokerAsset_init usdc 100) 200 False)) = 100"
proof -
  let ?a = "BrokerAsset_init usdc 100"
  have nz: "\<not> (balance ?a = 0 \<and> (200::rat) = 0)" by simp
  have pre: "balance ?a - 200 < 0
      \<and> 1 / 100000 + 1 / 10 ^ 21
           \<le> \<bar>(balance ?a - 200) / (if balance ?a \<noteq> 0 then balance ?a else 200)\<bar>"
    by (simp add: BrokerAsset_init_def)
  have raised: "sub ?a 200 False
      = (?a, Some (Insufficient_balance (balance ?a) (asset_name ?a) 200))"
    by (rule sub_raises_insufficient [OF nz, THEN conjunct2, rule_format, OF pre])
  have flt: "(1 / 100000 + 1 / 10 ^ 21 :: rat) \<le> \<bar>(100 - 200) / 100\<bar>"
    by simp
  show ?thesis
    unfolding raised using flt by (simp add: BrokerAsset_init_def usdc_def)
qed

text \<open>
  C10. For every asset ledger whose balance is exactly zero and every strictly positive
  debit amount \<open>A\<close>, a debit with \<open>allow_negative = false\<close> raises the insufficient-balance
  error: the relative difference \<open>|0 - A| / A\<close> is exactly 1, the snap to zero does not
  apply, the balance stays zero and the debit never succeeds silently.
\<close>

theorem sub_from_zero_balance_raises:
  assumes "balance self = 0" and "0 < amount"
  shows "\<bar>0 - amount\<bar> / amount = 1
       \<and> sub self amount False = (self, Some (Insufficient_balance 0 (asset_name self) amount))
       \<and> balance (fst (sub self amount False)) = 0"
  using assms by (simp add: sub_def float_0_00001_def)

theorem sub_from_zero_balance_raises_witness:
  "balance (BrokerAsset_init usdc 0) = 0 \<and> (0::rat) < 5
   \<and> sub (BrokerAsset_init usdc 0) 5 False
       = (BrokerAsset_init usdc 0, Some (Insufficient_balance 0 ''usdc'' 5))"
  using sub_from_zero_balance_raises [of "BrokerAsset_init usdc 0" 5]
  by (simp add: BrokerAsset_init_def usdc_def)

section \<open>Properties of resample\<close>

lemma get_line_rules_safe_absent:
  "map_of LINE_RULES c = None \<Longrightarrow> get_line_rules_safe c = EMPTY_RULE"
  by (simp add: get_line_rules_safe_def)

lemma get_line_rules_safe_present:
  "map_of LINE_RULES c = Some r \<Longrightarrow> get_line_rules_safe c = r"
  by (simp add: get_line_rules_safe_def)


lemma rules_zero:
  "fillna_value (get_line_rules_safe c) = Some 0 \<longleftrightarrow> c \<in> set zero_fill_columns"
  by (simp add: get_line_rules_safe_def LINE_RULES_def EMPTY_RULE_def zero_fill_columns_def)

text \<open>The method the loop assigns to a column name.\<close>

lemma agg_dict_loop_lookup:
  "map_of (agg_dict_loop cs agg1 d) c =
     (if c \<in> set cs
      then Some (case agg (get_line_rules_safe c) of
                   Some m \<Rightarrow> m
                 | None \<Rightarrow> (case map_of agg1 c of Some m \<Rightarrow> m | None \<Rightarrow> DEFAULT_AGG_METHOD))
      else map_of d c)"
proof (induction cs arbitrary: d)
  case Nil
  show ?case by simp
next
  case (Cons a cs)
  show ?case
    by (auto simp add: Cons.IH Let_def update_conv')
qed

lemma agg_dict_loop_keys:
  "distinct (map fst d @ cs) \<Longrightarrow> map fst (agg_dict_loop cs agg1 d) = map fst d @ cs"
proof (induction cs arbitrary: d)
  case Nil
  show ?case by simp
next
  case (Cons a cs)
  from Cons.prems have "a \<notin> set (map fst d)" by auto
  then have keys: "map fst (AList.update a x d) = map fst d @ [a]" for x
    by (simp add: update_keys)
  from Cons.prems have "distinct (map fst (AList.update a x d) @ cs)" for x
    by (simp add: keys)
  from Cons.IH [OF this] show ?case
    by (simp add: Let_def keys)
qed

lemma getitem_Inr_iff: "getitem df c = Inr s \<longleftrightarrow> map_of (columns df) c = Some s"
  by (simp add: getitem_def split: option.splits)

lemma getitem_column: "getitem df c = Inr s \<Longrightarrow> c \<in> set (column_names df)"
  by (auto simp: getitem_Inr_iff column_names_def dest: map_of_SomeD intro: rev_image_eqI)

lemma getitem_length:
  "wf_frame df \<Longrightarrow> getitem df c = Inr s \<Longrightarrow> length s = length (index df)"
  by (auto simp: wf_frame_def getitem_Inr_iff list_all_iff dest!: map_of_SomeD)

lemma column_getitem:
  "c \<in> set (column_names df) \<Longrightarrow> \<exists>s. getitem df c = Inr s"
  by (cases "map_of (columns df) c") (auto simp: getitem_def column_names_def map_of_eq_None_iff)

lemma agg_columns_result:
  assumes "set (map fst ad) \<subseteq> set (column_names df)"
  shows "agg_columns bar_of fsum named df ad =
     Inr (map (\<lambda>(c, m). (c, map (\<lambda>k. pd_agg fsum named (the (map_of (columns df) c)) m
                                     (bar_cells bar_of (index df) (the (map_of (columns df) c)) k))
                               (bar_numbers bar_of (index df)))) ad)"
  using assms
proof (induction ad)
  case Nil
  show ?case by simp
next
  case (Cons p ad)
  obtain c m where p: "p = (c, m)" by (cases p)
  from Cons.prems p have "c \<in> set (column_names df)" by simp
  then obtain s where s: "getitem df c = Inr s" using column_getitem by blast
  then have the_s: "the (map_of (columns df) c) = s" by (simp add: getitem_Inr_iff)
  from Cons.prems have "set (map fst ad) \<subseteq> set (column_names df)" by simp
  from Cons.IH [OF this] show ?case by (simp add: p s the_s)
qed

lemma map_of_keyed_map:
  "map_of (map (\<lambda>(c, m). (c, g c m)) ad) c = map_option (g c) (map_of ad c)"
  by (induction ad) auto

lemma resample_agg_dict_lookup:
  "map_of (resample_agg_dict df agg0) c =
     (if c \<in> set (column_names df)
      then Some (case agg (get_line_rules_safe c) of
                   Some m \<Rightarrow> m
                 | None \<Rightarrow> (case map_of (case agg0 of None \<Rightarrow> [] | Some d \<Rightarrow> d) c of
                              Some m \<Rightarrow> m | None \<Rightarrow> DEFAULT_AGG_METHOD))
      else None)"
  by (simp add: resample_agg_dict_def agg_dict_loop_lookup)

lemma resample_agg_dict_keys:
  "set (map fst (resample_agg_dict df agg0)) \<subseteq> set (column_names df)"
proof
  fix c assume "c \<in> set (map fst (resample_agg_dict df agg0))"
  then have "map_of (resample_agg_dict df agg0) c \<noteq> None"
    by (simp add: map_of_eq_None_iff)
  then show "c \<in> set (column_names df)"
    by (simp add: resample_agg_dict_lookup split: if_splits)
qed

lemma resample_result:
  "resample df bar_of fsum named agg0 =
     Inr \<lparr> index = bar_numbers bar_of (index df),
           columns = map (\<lambda>(c, m). (c, map (\<lambda>k. pd_agg fsum named (the (map_of (columns df) c)) m
                              (bar_cells bar_of (index df) (the (map_of (columns df) c)) k))
                               (bar_numbers bar_of (index df)))) (resample_agg_dict df agg0) \<rparr>"
  by (simp add: resample_def Resampler_agg_def agg_columns_result [OF resample_agg_dict_keys])

lemma resample_column:
  assumes "getitem df c = Inr s"
  shows "\<exists>df'. resample df bar_of fsum named agg0 = Inr df'
           \<and> index df' = bar_numbers bar_of (index df)
           \<and> getitem df' c =
               Inr (map (\<lambda>k. pd_agg fsum named s (the (map_of (resample_agg_dict df agg0) c))
                                (bar_cells bar_of (index df) s k))
                        (bar_numbers bar_of (index df)))"
proof -
  from assms have the_s: "the (map_of (columns df) c) = s" by (simp add: getitem_Inr_iff)
  from getitem_column [OF assms] have "map_of (resample_agg_dict df agg0) c \<noteq> None"
    by (simp add: resample_agg_dict_lookup)
  then obtain m where m: "map_of (resample_agg_dict df agg0) c = Some m" by auto
  show ?thesis
    by (simp add: resample_result getitem_def map_of_keyed_map m the_s)
qed



















text \<open>
  C8. In \<open>resample\<close>, for every column: a column absent from the rule table is aggregated
  with the caller's \<open>agg\<close> entry for it when there is one, else with \<open>first\<close>; a column whose
  registered rule carries an aggregation method (one of sum, first, last, min, max) is
  aggregated with exactly that method, whatever the caller's \<open>agg\<close> holds for it. The
  statement gives both the entry of \<open>agg_dict\<close> and the resulting column.
\<close>

theorem resample_aggregation_method:
  assumes "wf_frame df" and "getitem df c = Inr s"
  shows "\<exists>df'. resample df bar_of fsum named agg0 = Inr df'
     \<and> (map_of LINE_RULES c = None \<longrightarrow>
          (let m = (case map_of (case agg0 of None \<Rightarrow> [] | Some d \<Rightarrow> d) c of
                      Some a \<Rightarrow> a | None \<Rightarrow> ''first'')
           in map_of (resample_agg_dict df agg0) c = Some m
              \<and> getitem df' c =
                  Inr (map (\<lambda>k. pd_agg fsum named s m (bar_cells bar_of (index df) s k))
                           (bar_numbers bar_of (index df)))))
     \<and> (\<forall>r m. map_of LINE_RULES c = Some r \<and> agg r = Some m \<longrightarrow>
            m \<in> set [''sum'', ''first'', ''last'', ''min'', ''max'']
          \<and> map_of (resample_agg_dict df agg0) c = Some m
          \<and> getitem df' c =
              Inr (map (\<lambda>k. pd_agg fsum named s m (bar_cells bar_of (index df) s k))
                       (bar_numbers bar_of (index df))))"
proof -
  from resample_column [OF assms(2), of bar_of fsum named agg0]
  obtain df' where r: "resample df bar_of fsum named agg0 = Inr df'"
    and g: "getitem df' c =
              Inr (map (\<lambda>k. pd_agg fsum named s (the (map_of (resample_agg_dict df agg0) c))
                                (bar_cells bar_of (index df) s k))
                       (bar_numbers bar_of (index df)))"
    by blast
  note col = getitem_column [OF assms(2)]
  have absent: "map_of LINE_RULES c = None \<Longrightarrow>
      map_of (resample_agg_dict df agg0) c =
        Some (case map_of (case agg0 of None \<Rightarrow> [] | Some d \<Rightarrow> d) c of
                Some a \<Rightarrow> a | None \<Rightarrow> ''first'')"
    using col
    by (simp add: resample_agg_dict_lookup get_line_rules_safe_absent EMPTY_RULE_def
        DEFAULT_AGG_METHOD_def split: option.splits)
  have registered: "map_of LINE_RULES c = Some r \<Longrightarrow> agg r = Some m \<Longrightarrow>
      map_of (resample_agg_dict df agg0) c = Some m" for r m
    using col by (simp add: resample_agg_dict_lookup get_line_rules_safe_present)
  have names: "map_of LINE_RULES c = Some r \<Longrightarrow> agg r = Some m \<Longrightarrow>
      m \<in> set [''sum'', ''first'', ''last'', ''min'', ''max'']" for r m
    by (auto simp: LINE_RULES_def EMPTY_RULE_def split: if_splits)
  show ?thesis
  proof (intro exI conjI impI allI)
    show "resample df bar_of fsum named agg0 = Inr df'" by (rule r)
  next
    assume a: "map_of LINE_RULES c = None"
    show "let m = (case map_of (case agg0 of None \<Rightarrow> [] | Some d \<Rightarrow> d) c of
                      Some a \<Rightarrow> a | None \<Rightarrow> ''first'')
           in map_of (resample_agg_dict df agg0) c = Some m
              \<and> getitem df' c =
                  Inr (map (\<lambda>k. pd_agg fsum named s m (bar_cells bar_of (index df) s k))
                           (bar_numbers bar_of (index df)))"
      using g by (simp add: absent [OF a] Let_def)
  next
    fix r m assume "map_of LINE_RULES c = Some r \<and> agg r = Some m"
    then have a: "map_of LINE_RULES c = Some r" and b: "agg r = Some m" by simp_all
    show "m \<in> set [''sum'', ''first'', ''last'', ''min'', ''max'']" by (rule names [OF a b])
    show "map_of (resample_agg_dict df agg0) c = Some m" by (rule registered [OF a b])
    show "getitem df' c =
              Inr (map (\<lambda>k. pd_agg fsum named s m (bar_cells bar_of (index df) s k))
                       (bar_numbers bar_of (index df)))"
      using g by (simp add: registered [OF a b])
  qed
qed

theorem resample_aggregation_method_witness:
  "wf_frame raw_example
   \<and> getitem raw_example ''netAmount0'' = Inr [Some 5, Some 3, None, Some 2]
   \<and> map_of LINE_RULES ''netAmount0''
       = Some \<lparr> agg = Some ''sum'', fillna_method = None, fillna_value = Some 0 \<rparr>
   \<and> map_of (resample_agg_dict raw_example (Some [(''volume'', ''max''), (''netAmount0'', ''max'')]))
        ''netAmount0'' = Some ''sum''
   \<and> getitem raw_example ''volume'' = Inr [Some 1, Some 2, Some 3, Some 4]
   \<and> map_of LINE_RULES ''volume'' = None
   \<and> map_of (resample_agg_dict raw_example (Some [(''volume'', ''max''), (''netAmount0'', ''max'')]))
        ''volume'' = Some ''max''
   \<and> map_of (resample_agg_dict raw_example None) ''volume'' = Some ''first''"
proof -
  let ?agg = "Some [(''volume'', ''max''), (''netAmount0'', ''max'')]"
  have h1: "wf_frame raw_example" by code_simp
  have h2: "getitem raw_example ''netAmount0'' = Inr [Some 5, Some 3, None, Some 2]"
    by code_simp
  have h3: "map_of LINE_RULES ''netAmount0''
       = Some \<lparr> agg = Some ''sum'', fillna_method = None, fillna_value = Some 0 \<rparr>"
    by code_simp
  have h4: "getitem raw_example ''volume'' = Inr [Some 1, Some 2, Some 3, Some 4]"
    by code_simp
  have h5: "map_of LINE_RULES ''volume'' = None" by code_simp
  from resample_aggregation_method [OF h1 h2, of minute_bar sum_list no_named_agg ?agg] h3
  have a: "map_of (resample_agg_dict raw_example ?agg) ''netAmount0'' = Some ''sum''"
    by auto
  from resample_aggregation_method [OF h1 h4, of minute_bar sum_list no_named_agg ?agg] h5
  have b: "map_of (resample_agg_dict raw_example ?agg) ''volume'' = Some ''max''"
    by (auto simp: Let_def)
  from resample_aggregation_method [OF h1 h4, of minute_bar sum_list no_named_agg None] h5
  have c: "map_of (resample_agg_dict raw_example None) ''volume'' = Some ''first''"
    by (auto simp: Let_def)
  from h1 h2 h3 h4 h5 a b c show ?thesis by blast
qed

section \<open>Properties of fillna\<close>

subsection \<open>Series\<close>

lemma length_ffill: "length (ffill p xs) = length xs"
  by (induction p xs rule: ffill.induct) simp_all

lemma all_le_Suc_split: "(\<forall>j\<le>Suc n. P j) \<longleftrightarrow> P 0 \<and> (\<forall>j\<le>n. P (Suc j))"
proof
  assume "\<forall>j\<le>Suc n. P j"
  then show "P 0 \<and> (\<forall>j\<le>n. P (Suc j))" by simp
next
  assume h: "P 0 \<and> (\<forall>j\<le>n. P (Suc j))"
  show "\<forall>j\<le>Suc n. P j"
  proof (intro allI impI)
    fix j assume "j \<le> Suc n"
    with h show "P j" by (cases j) simp_all
  qed
qed

lemma ffill_None_iff:
  "i < length xs \<Longrightarrow> ffill p xs ! i = None \<longleftrightarrow> p = None \<and> (\<forall>j\<le>i. xs ! j = None)"
proof (induction p xs arbitrary: i rule: ffill.induct)
  case (1 prev)
  then show ?case by simp
next
  case (2 prev xs)
  show ?case
  proof (cases i)
    case 0
    then show ?thesis by simp
  next
    case (Suc n)
    with "2.prems" have "n < length xs" by simp
    from "2.IH" [OF this] show ?thesis
      by (simp add: Suc all_le_Suc_split)
  qed
next
  case (3 prev v xs)
  show ?case
  proof (cases i)
    case 0
    then show ?thesis by simp
  next
    case (Suc n)
    with "3.prems" have "n < length xs" by simp
    from "3.IH" [OF this] show ?thesis
      by (simp add: Suc all_le_Suc_split)
  qed
qed

lemma ffill_present:
  "i < length xs \<Longrightarrow> xs ! i = Some x \<Longrightarrow> ffill p xs ! i = Some x"
proof (induction p xs arbitrary: i rule: ffill.induct)
  case (1 prev)
  then show ?case by simp
next
  case (2 prev xs)
  then show ?case by (cases i) auto
next
  case (3 prev v xs)
  then show ?case by (cases i) auto
qed

lemma length_fill_scalar: "length (fill_scalar xs c) = length xs"
  by (simp add: fill_scalar_def)

lemma fill_scalar_complete: "None \<notin> set (fill_scalar xs c)"
  by (auto simp: fill_scalar_def split: option.splits)

lemma fill_scalar_nth:
  "i < length xs \<Longrightarrow>
     fill_scalar xs c ! i = (case xs ! i of None \<Rightarrow> Some c | Some x \<Rightarrow> Some x)"
  by (simp add: fill_scalar_def)

lemma length_fill_from: "length (fill_from xs ys) = length xs"
  by (induction xs ys rule: fill_from.induct) simp_all

lemma fill_from_nth:
  "i < length xs \<Longrightarrow> length ys = length xs \<Longrightarrow>
     fill_from xs ys ! i = (case xs ! i of None \<Rightarrow> ys ! i | Some x \<Rightarrow> Some x)"
proof (induction xs ys arbitrary: i rule: fill_from.induct)
  case (1 ys)
  then show ?case by simp
next
  case (2 x xs)
  then show ?case by simp
next
  case (3 xs y ys)
  then show ?case by (cases i) (auto split: option.splits)
next
  case (4 v xs y ys)
  then show ?case by (cases i) (auto split: option.splits)
qed

lemma Series_fillna_scalar:
  "Series_fillna s (Some (Scalar c)) m = Inr s' \<Longrightarrow> m = None \<and> s' = fill_scalar s c"
  by (cases m) (auto simp: Series_fillna_def)

lemma Series_fillna_ffill:
  "Series_fillna s v (Some ''ffill'') = Inr s' \<Longrightarrow> v = None \<and> s' = ffill None s"
  by (cases v) (auto simp: Series_fillna_def split: fill_arg.splits)

lemma Series_fillna_ffill_None: "Series_fillna s None (Some ''ffill'') = Inr (ffill None s)"
  by (simp add: Series_fillna_def)

lemma Series_fillna_values: "Series_fillna s (Some (Values t)) None = Inr (fill_from s t)"
  by (simp add: Series_fillna_def)

lemma Series_fillna_scalar_None: "Series_fillna s (Some (Scalar c)) None = Inr (fill_scalar s c)"
  by (simp add: Series_fillna_def)

subsection \<open>Frames\<close>

lemma getitem_setitem:
  "getitem (setitem df c s) c' = (if c' = c then Inr s else getitem df c')"
  by (simp add: getitem_def setitem_def update_conv')

lemma column_names_setitem:
  "c \<in> set (column_names df) \<Longrightarrow> column_names (setitem df c s) = column_names df"
  by (simp add: column_names_def setitem_def update_keys)

lemma index_setitem: "index (setitem df c s) = index df"
  by (simp add: setitem_def)

subsection \<open>What the loop body passes to pandas, by kind of column\<close>

lemma rule_closeTick:
  "fillna_method (get_line_rules_safe (LineTypeEnum_name closeTick)) = Some ''ffill''"
  by (simp add: get_line_rules_safe_def LINE_RULES_def)

lemma fillna_column_zero:
  assumes "c \<in> set zero_fill_columns"
  shows "fillna_column df v m c =
       (case getitem df c of Inl e \<Rightarrow> Inl e | Inr s \<Rightarrow> Series_fillna s (Some (Scalar 0)) m)"
proof -
  from assms consider "c = ''netAmount0''" | "c = ''netAmount1''" | "c = ''inAmount0''"
    | "c = ''inAmount1''"
    by (auto simp: zero_fill_columns_def)
  then show ?thesis
    by cases (simp_all add: fillna_column_def get_line_rules_safe_def LINE_RULES_def truthy_def)
qed

lemma tick_columns_cases:
  assumes "c \<in> set tick_columns"
  obtains "c = ''openTick''" | "c = ''highestTick''" | "c = ''lowestTick''"
  using assms by (auto simp: tick_columns_def)

lemma fillna_column_tick_close:
  assumes "c \<in> set tick_columns" and "getitem df (LineTypeEnum_name closeTick) = Inr close"
  shows "fillna_column df v m c =
       (case getitem df c of Inl e \<Rightarrow> Inl e | Inr s \<Rightarrow> Inr (fill_from s close))"
proof -
  from getitem_column [OF assms(2)] have k: "''closeTick'' \<in> set (column_names df)" by simp
  from assms(2) have g: "getitem df ''closeTick'' = Inr close" by simp
  from assms(1) show ?thesis
    by (cases rule: tick_columns_cases)
      (simp_all add: fillna_column_def get_line_rules_safe_def LINE_RULES_def truthy_def
        Series_fillna_values k g split: sum.splits)
qed

lemma fillna_column_tick_no_close:
  assumes "c \<in> set tick_columns" and "LineTypeEnum_name closeTick \<notin> set (column_names df)"
  shows "fillna_column df v m c =
       (case getitem df c of Inl e \<Rightarrow> Inl e | Inr s \<Rightarrow> Series_fillna s v (Some ''ffill''))"
proof -
  from assms(2) have k: "''closeTick'' \<notin> set (column_names df)" by simp
  from assms(1) show ?thesis
    by (cases rule: tick_columns_cases)
      (simp_all add: fillna_column_def get_line_rules_safe_def LINE_RULES_def truthy_def k)
qed

lemma fillna_column_liquidity:
  "fillna_column df v m (LineTypeEnum_name currentLiquidity) =
     (case getitem df (LineTypeEnum_name currentLiquidity) of
        Inl e \<Rightarrow> Inl e | Inr s \<Rightarrow> Series_fillna s v (Some ''ffill''))"
  by (simp add: fillna_column_def get_line_rules_safe_def LINE_RULES_def truthy_def)

lemma fillna_column_generic:
  "c \<notin> set recognized_columns \<Longrightarrow>
     fillna_column df v m c =
       (case getitem df c of Inl e \<Rightarrow> Inl e | Inr s \<Rightarrow> Series_fillna s v m)"
  by (simp add: recognized_columns_def tick_columns_def zero_fill_columns_def fillna_column_def
      get_line_rules_safe_def LINE_RULES_def truthy_def EMPTY_RULE_def)

lemma fillna_column_Inr_column:
  "fillna_column df v m c = Inr s' \<Longrightarrow> c \<in> set (column_names df)"
  by (auto simp: fillna_column_def Let_def split: if_splits sum.splits dest: getitem_column)

lemma fillna_column_setitem:
  assumes "c' \<noteq> c" and "c' \<noteq> LineTypeEnum_name closeTick" and "c' \<in> set (column_names df)"
  shows "fillna_column (setitem df c' s') v m c = fillna_column df v m c"
proof -
  from assms(1) have ne: "c \<noteq> c'" by simp
  have g: "getitem (setitem df c' s') c = getitem df c"
    using ne by (simp add: getitem_setitem)
  have k: "getitem (setitem df c' s') (LineTypeEnum_name closeTick)
             = getitem df (LineTypeEnum_name closeTick)"
    using assms(2) by (simp add: getitem_setitem)
  have n: "column_names (setitem df c' s') = column_names df"
    by (rule column_names_setitem [OF assms(3)])
  show ?thesis
    unfolding fillna_column_def g k n ..
qed

subsection \<open>The loop and the whole call\<close>

lemma fillna_loop_result:
  assumes "fillna_loop cs df v m = Inr df'" and "distinct cs"
  shows "column_names df' = column_names df \<and> index df' = index df
       \<and> (\<forall>c. getitem df' c =
              (if c \<in> set cs \<and> c \<noteq> LineTypeEnum_name closeTick
               then fillna_column df v m c else getitem df c))"
  using assms
proof (induction cs arbitrary: df)
  case Nil
  then show ?case by simp
next
  case (Cons a cs)
  from Cons.prems(2) have dist: "distinct cs" and fresh: "a \<notin> set cs" by simp_all
  show ?case
  proof (cases "a = LineTypeEnum_name closeTick")
    case True
    with Cons.prems(1) have "fillna_loop cs df v m = Inr df'" by simp
    from Cons.IH [OF this dist] True show ?thesis by auto
  next
    case False
    with Cons.prems(1) obtain s1 where s1: "fillna_column df v m a = Inr s1"
      and rest: "fillna_loop cs (setitem df a s1) v m = Inr df'"
      by (auto split: sum.splits)
    from fillna_column_Inr_column [OF s1] have col: "a \<in> set (column_names df)" .
    note ih = Cons.IH [OF rest dist]
    have names: "column_names df' = column_names df"
      using ih by (simp add: column_names_setitem [OF col])
    have idx: "index df' = index df"
      using ih by (simp add: index_setitem)
    have cells: "getitem df' c =
        (if c \<in> set (a # cs) \<and> c \<noteq> LineTypeEnum_name closeTick
         then fillna_column df v m c else getitem df c)" for c
    proof (cases "c = a")
      case True
      with ih fresh False s1 show ?thesis by (simp add: getitem_setitem)
    next
      case ne: False
      then have ne': "a \<noteq> c" by simp
      show ?thesis
      proof (cases "c \<in> set cs \<and> c \<noteq> LineTypeEnum_name closeTick")
        case True
        with ih have "getitem df' c = fillna_column (setitem df a s1) v m c" by simp
        also have "\<dots> = fillna_column df v m c"
          by (rule fillna_column_setitem [OF ne' False col])
        finally show ?thesis using True by simp
      next
        case False
        with ih have "getitem df' c = getitem (setitem df a s1) c" by auto
        with ne False show ?thesis by (auto simp: getitem_setitem)
      qed
    qed
    from names idx cells show ?thesis by blast
  qed
qed

lemma fillna_without_close:
  assumes "LineTypeEnum_name closeTick \<notin> set (column_names df)"
  shows "fillna df v m = fillna_loop (column_names df) df v m"
  using assms by (simp add: fillna_def)

lemma fillna_with_close:
  assumes "getitem df (LineTypeEnum_name closeTick) = Inr close"
  shows "fillna df v m =
           fillna_loop (column_names df)
             (setitem df (LineTypeEnum_name closeTick) (ffill None close)) v m"
proof -
  from getitem_column [OF assms] have k: "LineTypeEnum_name closeTick \<in> set (column_names df)" .
  show ?thesis
    unfolding fillna_def Let_def
    by (simp only: k if_True assms sum.case rule_closeTick Series_fillna_ffill_None
        column_names_setitem [OF k])
qed

lemma fillna_loop_succeeds:
  assumes "distinct cs"
    and "\<forall>c\<in>set cs. c \<noteq> LineTypeEnum_name closeTick \<longrightarrow> (\<exists>s. fillna_column df v m c = Inr s)"
  shows "\<exists>df'. fillna_loop cs df v m = Inr df'"
  using assms
proof (induction cs arbitrary: df)
  case Nil
  show ?case by simp
next
  case (Cons a cs)
  from Cons.prems(1) have dist: "distinct cs" and fresh: "a \<notin> set cs" by simp_all
  show ?case
  proof (cases "a = LineTypeEnum_name closeTick")
    case True
    from Cons.prems(2) have "\<forall>c\<in>set cs. c \<noteq> LineTypeEnum_name closeTick
        \<longrightarrow> (\<exists>s. fillna_column df v m c = Inr s)" by simp
    from Cons.IH [OF dist this] True show ?thesis by simp
  next
    case False
    with Cons.prems(2) obtain s1 where s1: "fillna_column df v m a = Inr s1" by auto
    from fillna_column_Inr_column [OF s1] have col: "a \<in> set (column_names df)" .
    have "\<forall>c\<in>set cs. c \<noteq> LineTypeEnum_name closeTick
        \<longrightarrow> (\<exists>s. fillna_column (setitem df a s1) v m c = Inr s)"
    proof (intro ballI impI)
      fix c assume c: "c \<in> set cs" and nc: "c \<noteq> LineTypeEnum_name closeTick"
      with fresh have ne: "a \<noteq> c" by auto
      from Cons.prems(2) c nc obtain s where "fillna_column df v m c = Inr s" by auto
      then show "\<exists>s. fillna_column (setitem df a s1) v m c = Inr s"
        by (simp add: fillna_column_setitem [OF ne False col])
    qed
    from Cons.IH [OF dist this] False s1 show ?thesis by simp
  qed
qed

lemma wf_frame_distinct: "wf_frame df \<Longrightarrow> distinct (column_names df)"
  by (simp add: wf_frame_def)

text \<open>The cells of the result when the closing tick is a column, and when it is not.\<close>

lemma fillna_cells_with_close:
  assumes "wf_frame df" and "getitem df (LineTypeEnum_name closeTick) = Inr close"
    and "fillna df v m = Inr df'"
  shows "getitem df' (LineTypeEnum_name closeTick) = Inr (ffill None close)"
    and "c \<noteq> LineTypeEnum_name closeTick \<Longrightarrow> getitem df c = Inr s \<Longrightarrow>
           getitem df' c =
             fillna_column (setitem df (LineTypeEnum_name closeTick) (ffill None close)) v m c"
proof -
  let ?k = "LineTypeEnum_name closeTick"
  let ?df1 = "setitem df ?k (ffill None close)"
  from getitem_column [OF assms(2)] have k: "?k \<in> set (column_names df)" .
  from assms(3) have loop: "fillna_loop (column_names df) ?df1 v m = Inr df'"
    by (simp only: fillna_with_close [OF assms(2)])
  note res = fillna_loop_result [OF loop wf_frame_distinct [OF assms(1)]]
  from res show "getitem df' ?k = Inr (ffill None close)"
    by (simp add: getitem_setitem)
  assume "c \<noteq> ?k" and "getitem df c = Inr s"
  with res getitem_column [of df c s] show "getitem df' c = fillna_column ?df1 v m c"
    by simp
qed

lemma fillna_cells_without_close:
  assumes "wf_frame df" and "LineTypeEnum_name closeTick \<notin> set (column_names df)"
    and "fillna df v m = Inr df'" and "getitem df c = Inr s"
  shows "getitem df' c = fillna_column df v m c"
proof -
  from assms(3) have loop: "fillna_loop (column_names df) df v m = Inr df'"
    by (simp only: fillna_without_close [OF assms(2)])
  note res = fillna_loop_result [OF loop wf_frame_distinct [OF assms(1)]]
  from getitem_column [OF assms(4)] assms(2) have "c \<noteq> LineTypeEnum_name closeTick" by auto
  with res getitem_column [OF assms(4)] show ?thesis by simp
qed

lemma wf_frame_setitem:
  assumes "wf_frame df" and "c \<in> set (column_names df)" and "length s = length (index df)"
  shows "wf_frame (setitem df c s)"
proof -
  have "list_all (\<lambda>(c, s). length s = n) al \<Longrightarrow> length s = n \<Longrightarrow>
          list_all (\<lambda>(c, s). length s = n) (AList.update c s al)" for al :: "(string \<times> Series) list" and n
    by (induction al) auto
  with assms show ?thesis
    by (simp add: wf_frame_def column_names_setitem index_setitem)
      (simp add: setitem_def)
qed

text \<open>
  C4, as stated, on the bars of \<open>gap_raw_example\<close>. In the first bar \<open>lowestTick\<close> is missing
  and so is the closing tick, forward fill having nothing to carry into the first bar;
  after \<open>fillna\<close> the cell is still missing, where the claim has every missing tick cell
  filled.
\<close>

theorem fillna_ticks_counterexample:
  "wf_frame gap_bars_example
   \<and> getitem gap_bars_example ''closeTick'' = Inr [None, Some 5, None, Some 8]
   \<and> getitem gap_bars_example ''lowestTick'' = Inr [None, Some 3, None, Some 6]
   \<and> fillna gap_bars_example None None = Inr gap_filled_example
   \<and> getitem gap_filled_example ''closeTick'' = Inr [None, Some 5, Some 5, Some 8]
   \<and> getitem gap_filled_example ''lowestTick'' = Inr [None, Some 3, Some 5, Some 6]"
  by code_simp

text \<open>
  C4 (amended). When the closing-tick column is present, \<open>fillna\<close> forward-fills it first
  and runs the loop over the columns on the frame so changed; in the result, every cell of
  \<open>openTick\<close>, \<open>highestTick\<close> and \<open>lowestTick\<close> that was missing holds the filled closing tick
  of the same bar (not forward-filled from its own column, not interpolated, not zero),
  and every other cell of these columns is unchanged. Such a cell is still missing
  exactly when no closing tick is available in its bar or an earlier one, that is, in the
  bars before the first closing tick.
\<close>

theorem fillna_ticks_from_close:
  assumes "wf_frame df" and "getitem df (LineTypeEnum_name closeTick) = Inr close"
  shows "fillna df v m =
           fillna_loop (column_names df)
             (setitem df (LineTypeEnum_name closeTick) (ffill None close)) v m
       \<and> (\<forall>df'. fillna df v m = Inr df' \<longrightarrow>
            getitem df' (LineTypeEnum_name closeTick) = Inr (ffill None close)
          \<and> (\<forall>c s. c \<in> set tick_columns \<and> getitem df c = Inr s \<longrightarrow>
               (\<exists>s'. getitem df' c = Inr s' \<and> length s' = length s
                  \<and> (\<forall>i<length s. s' ! i =
                        (case s ! i of None \<Rightarrow> ffill None close ! i | Some x \<Rightarrow> Some x))
                  \<and> (\<forall>i<length s. s' ! i = None \<longleftrightarrow>
                        s ! i = None \<and> (\<forall>j\<le>i. close ! j = None)))))"
proof (intro conjI allI impI)
  show "fillna df v m =
           fillna_loop (column_names df)
             (setitem df (LineTypeEnum_name closeTick) (ffill None close)) v m"
    by (rule fillna_with_close [OF assms(2)])
next
  fix df' assume ok: "fillna df v m = Inr df'"
  show "getitem df' (LineTypeEnum_name closeTick) = Inr (ffill None close)"
    by (rule fillna_cells_with_close(1) [OF assms ok])
next
  fix df' c s
  assume ok: "fillna df v m = Inr df'"
    and cs: "c \<in> set tick_columns \<and> getitem df c = Inr s"
  let ?k = "LineTypeEnum_name closeTick"
  let ?df1 = "setitem df ?k (ffill None close)"
  let ?s' = "fill_from s (ffill None close)"
  from cs have tick: "c \<in> set tick_columns" and s: "getitem df c = Inr s" by simp_all
  from tick have ne: "c \<noteq> ?k" by (auto simp: tick_columns_def)
  have k1: "getitem ?df1 ?k = Inr (ffill None close)" by (simp add: getitem_setitem)
  have s1: "getitem ?df1 c = Inr s" using ne s by (simp add: getitem_setitem)
  have "getitem df' c = fillna_column ?df1 v m c"
    by (rule fillna_cells_with_close(2) [OF assms ok ne s])
  also have "\<dots> = Inr ?s'"
    by (simp only: fillna_column_tick_close [OF tick k1] s1 sum.case)
  finally have g: "getitem df' c = Inr ?s'" .
  have len: "length (ffill None close) = length s"
    using getitem_length [OF assms(1) s] getitem_length [OF assms(1,2)]
    by (simp add: length_ffill)
  then have len': "length close = length s" by (simp add: length_ffill)
  have cell: "?s' ! i = (case s ! i of None \<Rightarrow> ffill None close ! i | Some x \<Rightarrow> Some x)"
    if "i < length s" for i
    by (rule fill_from_nth [OF that len])
  have gap: "?s' ! i = None \<longleftrightarrow> s ! i = None \<and> (\<forall>j\<le>i. close ! j = None)"
    if i: "i < length s" for i
  proof -
    from i len' have "i < length close" by simp
    from ffill_None_iff [OF this, of None]
    have f: "ffill None close ! i = None \<longleftrightarrow> (\<forall>j\<le>i. close ! j = None)" by simp
    show ?thesis
      unfolding cell [OF i] f [symmetric] by (cases "s ! i") simp_all
  qed
  show "\<exists>s'. getitem df' c = Inr s' \<and> length s' = length s
          \<and> (\<forall>i<length s. s' ! i =
                (case s ! i of None \<Rightarrow> ffill None close ! i | Some x \<Rightarrow> Some x))
          \<and> (\<forall>i<length s. s' ! i = None \<longleftrightarrow>
                s ! i = None \<and> (\<forall>j\<le>i. close ! j = None))"
    using g cell gap by (intro exI [of _ ?s']) (simp add: length_fill_from)
qed

theorem fillna_ticks_from_close_witness:
  "wf_frame bars_example
   \<and> getitem bars_example (LineTypeEnum_name closeTick) = Inr [None, Some 5, None]
   \<and> fillna bars_example None None = Inr filled_example
   \<and> getitem filled_example (LineTypeEnum_name closeTick) = Inr [None, Some 5, Some 5]
   \<and> LineTypeEnum_name openTick \<in> set tick_columns
   \<and> getitem bars_example (LineTypeEnum_name openTick) = Inr [None, None, Some 9]
   \<and> getitem filled_example (LineTypeEnum_name openTick) = Inr [None, Some 5, Some 9]"
proof -
  have h1: "wf_frame bars_example" by code_simp
  have h2: "getitem bars_example (LineTypeEnum_name closeTick) = Inr [None, Some 5, None]"
    by code_simp
  have ok: "fillna bars_example None None = Inr filled_example" by code_simp
  have t: "LineTypeEnum_name openTick \<in> set tick_columns" by code_simp
  have g: "getitem bars_example (LineTypeEnum_name openTick) = Inr [None, None, Some 9]"
    by code_simp
  have o: "getitem filled_example (LineTypeEnum_name openTick) = Inr [None, Some 5, Some 9]"
    by code_simp
  from fillna_ticks_from_close [OF h1 h2, of None None, THEN conjunct2, rule_format, OF ok]
  have "getitem filled_example (LineTypeEnum_name closeTick) = Inr (ffill None [None, Some 5, None])"
    by (rule conjunct1)
  then have "getitem filled_example (LineTypeEnum_name closeTick) = Inr [None, Some 5, Some 5]"
    by simp
  with h1 h2 ok t g o show ?thesis by blast
qed

lemma length_bfill: "length (bfill xs) = length xs"
  by (simp add: bfill_def length_ffill)

lemma Series_fillna_length: "Series_fillna s v m = Inr s' \<Longrightarrow> length s' = length s"
  by (auto simp: Series_fillna_def length_ffill length_bfill length_fill_scalar length_fill_from
      split: option.splits fill_arg.splits if_splits)

text \<open>The frame the loop starts from, and what the loop body yields there for each kind of column.\<close>

lemma fillna_cell:
  assumes "wf_frame df" and "fillna df v m = Inr df'" and "getitem df c = Inr s"
    and "c \<noteq> LineTypeEnum_name closeTick"
  shows "\<exists>df1 s'. getitem df' c = Inr s' \<and> fillna_column df1 v m c = Inr s'
           \<and> getitem df1 c = Inr s
           \<and> (\<forall>close. getitem df (LineTypeEnum_name closeTick) = Inr close \<longrightarrow>
                 getitem df1 (LineTypeEnum_name closeTick) = Inr (ffill None close))
           \<and> (LineTypeEnum_name closeTick \<notin> set (column_names df) \<longrightarrow>
                 LineTypeEnum_name closeTick \<notin> set (column_names df1))"
proof (cases "LineTypeEnum_name closeTick \<in> set (column_names df)")
  case True
  let ?k = "LineTypeEnum_name closeTick"
  from column_getitem [OF True] obtain close where cl: "getitem df ?k = Inr close" by blast
  let ?df1 = "setitem df ?k (ffill None close)"
  from assms(2) have loop: "fillna_loop (column_names df) ?df1 v m = Inr df'"
    by (simp only: fillna_with_close [OF cl])
  note res = fillna_loop_result [OF loop wf_frame_distinct [OF assms(1)]]
  from res column_names_setitem [OF True, of "ffill None close"]
  have "column_names df' = column_names df" by simp
  with getitem_column [OF assms(3)] column_getitem [of c df']
  obtain s' where s': "getitem df' c = Inr s'" by auto
  have "getitem df' c = fillna_column ?df1 v m c"
    by (rule fillna_cells_with_close(2) [OF assms(1) cl assms(2,4,3)])
  with s' have f: "fillna_column ?df1 v m c = Inr s'" by simp
  have g: "getitem ?df1 c = Inr s" using assms(3,4) by (simp add: getitem_setitem)
  have k1: "getitem ?df1 ?k = Inr (ffill None close)" by (simp add: getitem_setitem)
  from s' f g k1 cl True show ?thesis by (intro exI [of _ ?df1] exI [of _ s']) simp
next
  case False
  from assms(2) have loop: "fillna_loop (column_names df) df v m = Inr df'"
    by (simp only: fillna_without_close [OF False])
  note res = fillna_loop_result [OF loop wf_frame_distinct [OF assms(1)]]
  with getitem_column [OF assms(3)] column_getitem [of c df']
  obtain s' where s': "getitem df' c = Inr s'" by auto
  have "getitem df' c = fillna_column df v m c"
    by (rule fillna_cells_without_close [OF assms(1) False assms(2,3)])
  with s' have f: "fillna_column df v m c = Inr s'" by simp
  have nocl: "getitem df (LineTypeEnum_name closeTick) \<noteq> Inr close" for close
    using False getitem_column by blast
  from s' f assms(3) False nocl show ?thesis
    by (intro exI [of _ df] exI [of _ s']) simp
qed

lemma recognized_cases:
  assumes "c \<in> set recognized_columns"
  obtains "c = LineTypeEnum_name closeTick" | "c \<in> set tick_columns"
    | "c \<in> set zero_fill_columns" | "c = LineTypeEnum_name currentLiquidity"
  using assms by (auto simp: recognized_columns_def)

lemma kinds_disjoint:
  "c \<in> set zero_fill_columns \<Longrightarrow> c \<noteq> LineTypeEnum_name closeTick"
  "c \<in> set tick_columns \<Longrightarrow> c \<noteq> LineTypeEnum_name closeTick"
  "LineTypeEnum_name currentLiquidity \<noteq> LineTypeEnum_name closeTick"
  "c \<notin> set recognized_columns \<Longrightarrow> c \<noteq> LineTypeEnum_name closeTick"
  by (auto simp: zero_fill_columns_def tick_columns_def recognized_columns_def)

text \<open>The recognized columns are the column names with a non-empty rule in the table.\<close>

lemma recognized_columns_rules:
  "c \<in> set recognized_columns \<longleftrightarrow> get_line_rules_safe c \<noteq> EMPTY_RULE"
proof
  assume "c \<in> set recognized_columns"
  then show "get_line_rules_safe c \<noteq> EMPTY_RULE"
  proof (cases rule: recognized_cases)
    case 1
    then show ?thesis
      by (simp add: get_line_rules_safe_def LINE_RULES_def EMPTY_RULE_def)
  next
    case 2
    then show ?thesis
      by (cases rule: tick_columns_cases)
        (simp_all add: get_line_rules_safe_def LINE_RULES_def EMPTY_RULE_def)
  next
    case 3
    then have "fillna_value (get_line_rules_safe c) = Some 0" by (simp add: rules_zero)
    then show ?thesis by (auto simp: EMPTY_RULE_def)
  next
    case 4
    then show ?thesis
      by (simp add: get_line_rules_safe_def LINE_RULES_def EMPTY_RULE_def)
  qed
next
  assume ne: "get_line_rules_safe c \<noteq> EMPTY_RULE"
  show "c \<in> set recognized_columns"
  proof (rule ccontr)
    assume "c \<notin> set recognized_columns"
    then have "get_line_rules_safe c = EMPTY_RULE"
      by (simp add: recognized_columns_def tick_columns_def zero_fill_columns_def
          get_line_rules_safe_def LINE_RULES_def)
    with ne show False by simp
  qed
qed

lemma fillna_zero_cell:
  assumes "wf_frame df" and "fillna df v m = Inr df'" and "getitem df c = Inr s"
    and "c \<in> set zero_fill_columns"
  shows "m = None \<and> getitem df' c = Inr (fill_scalar s 0)"
proof -
  from fillna_cell [OF assms(1-3) kinds_disjoint(1) [OF assms(4)]]
  obtain df1 s' where g: "getitem df' c = Inr s'" and f: "fillna_column df1 v m c = Inr s'"
    and s: "getitem df1 c = Inr s" by blast
  from f have "Series_fillna s (Some (Scalar 0)) m = Inr s'"
    by (simp add: fillna_column_zero [OF assms(4)] s)
  from Series_fillna_scalar [OF this] g show ?thesis by simp
qed

lemma fillna_liquidity_cell:
  assumes "wf_frame df" and "fillna df v m = Inr df'"
    and "getitem df (LineTypeEnum_name currentLiquidity) = Inr s"
  shows "v = None \<and> getitem df' (LineTypeEnum_name currentLiquidity) = Inr (ffill None s)"
proof -
  from fillna_cell [OF assms(1-3) kinds_disjoint(3)]
  obtain df1 s' where g: "getitem df' (LineTypeEnum_name currentLiquidity) = Inr s'"
    and f: "fillna_column df1 v m (LineTypeEnum_name currentLiquidity) = Inr s'"
    and s: "getitem df1 (LineTypeEnum_name currentLiquidity) = Inr s" by blast
  from f have "Series_fillna s v (Some ''ffill'') = Inr s'"
    by (simp only: fillna_column_liquidity s sum.case)
  from Series_fillna_ffill [OF this] g show ?thesis by simp
qed

lemma fillna_tick_cell_no_close:
  assumes "wf_frame df" and "fillna df v m = Inr df'" and "getitem df c = Inr s"
    and "c \<in> set tick_columns"
    and "LineTypeEnum_name closeTick \<notin> set (column_names df)"
  shows "v = None \<and> getitem df' c = Inr (ffill None s)"
proof -
  have "getitem df' c = fillna_column df v m c"
    by (rule fillna_cells_without_close [OF assms(1,5,2,3)])
  also have "\<dots> = Series_fillna s v (Some ''ffill'')"
    by (simp only: fillna_column_tick_no_close [OF assms(4,5)] assms(3) sum.case)
  finally have g: "getitem df' c = Series_fillna s v (Some ''ffill'')" .
  from assms(2) have loop: "fillna_loop (column_names df) df v m = Inr df'"
    by (simp only: fillna_without_close [OF assms(5)])
  from fillna_loop_result [OF loop wf_frame_distinct [OF assms(1)]]
  have "column_names df' = column_names df" by simp
  with getitem_column [OF assms(3)] column_getitem [of c df']
  obtain s' where s': "getitem df' c = Inr s'" by auto
  with g have "Series_fillna s v (Some ''ffill'') = Inr s'" by simp
  from Series_fillna_ffill [OF this] s' show ?thesis by simp
qed

lemma fillna_tick_cell_close:
  assumes "wf_frame df" and "fillna df v m = Inr df'" and "getitem df c = Inr s"
    and "c \<in> set tick_columns"
    and "getitem df (LineTypeEnum_name closeTick) = Inr close"
  shows "getitem df' c = Inr (fill_from s (ffill None close))"
proof -
  from fillna_cell [OF assms(1-3) kinds_disjoint(2) [OF assms(4)]] assms(5)
  obtain df1 s' where g: "getitem df' c = Inr s'" and f: "fillna_column df1 v m c = Inr s'"
    and s: "getitem df1 c = Inr s"
    and k: "getitem df1 (LineTypeEnum_name closeTick) = Inr (ffill None close)" by blast
  from f have "s' = fill_from s (ffill None close)"
    by (simp only: fillna_column_tick_close [OF assms(4) k] s sum.case sum.inject)
  with g show ?thesis by simp
qed

lemma fillna_generic_cell:
  assumes "wf_frame df" and "fillna df v m = Inr df'" and "getitem df c = Inr s"
    and "c \<notin> set recognized_columns"
  shows "getitem df' c = Series_fillna s v m"
proof -
  from fillna_cell [OF assms(1-3) kinds_disjoint(4) [OF assms(4)]]
  obtain df1 s' where g: "getitem df' c = Inr s'" and f: "fillna_column df1 v m c = Inr s'"
    and s: "getitem df1 c = Inr s" by blast
  from f have "Series_fillna s v m = Inr s'"
    by (simp only: fillna_column_generic [OF assms(4)] s sum.case)
  with g show ?thesis by simp
qed

lemma getitem_absent:
  assumes "c \<notin> set (column_names df)"
  shows "getitem df c = Inl (KeyError c)"
proof -
  from assms have "map_of (columns df) c = None"
    by (simp add: map_of_eq_None_iff column_names_def)
  then show ?thesis by (simp add: getitem_def)
qed

lemma fillna_column_recognized_succeeds:
  assumes "c \<in> set recognized_columns" and "c \<noteq> LineTypeEnum_name closeTick"
    and "getitem df c = Inr s"
  shows "\<exists>s'. fillna_column df None None c = Inr s'"
  using assms(1)
proof (cases rule: recognized_cases)
  case 1
  with assms(2) show ?thesis by simp
next
  case 2
  show ?thesis
  proof (cases "LineTypeEnum_name closeTick \<in> set (column_names df)")
    case True
    from column_getitem [OF True] obtain close
      where "getitem df (LineTypeEnum_name closeTick) = Inr close" by blast
    from fillna_column_tick_close [OF 2 this] assms(3) show ?thesis by simp
  next
    case False
    from fillna_column_tick_no_close [OF 2 False] assms(3) show ?thesis
      by (simp add: Series_fillna_ffill_None)
  qed
next
  case 3
  from fillna_column_zero [OF 3] assms(3) show ?thesis
    by (simp add: Series_fillna_scalar_None)
next
  case 4
  with fillna_column_liquidity [of df None None] assms(3) show ?thesis
    by (simp add: Series_fillna_ffill_None)
qed

lemma fillna_succeeds_without_defaults:
  assumes "wf_frame df" and "set (column_names df) \<subseteq> set recognized_columns"
  shows "\<exists>df'. fillna df None None = Inr df'"
proof (cases "LineTypeEnum_name closeTick \<in> set (column_names df)")
  case True
  let ?k = "LineTypeEnum_name closeTick"
  from column_getitem [OF True] obtain close where cl: "getitem df ?k = Inr close" by blast
  let ?df1 = "setitem df ?k (ffill None close)"
  have names: "column_names ?df1 = column_names df" by (rule column_names_setitem [OF True])
  have "\<forall>c\<in>set (column_names df). c \<noteq> ?k \<longrightarrow> (\<exists>s. fillna_column ?df1 None None c = Inr s)"
  proof (intro ballI impI)
    fix c assume c: "c \<in> set (column_names df)" and ne: "c \<noteq> ?k"
    from c names column_getitem [of c ?df1] obtain s where "getitem ?df1 c = Inr s" by auto
    from fillna_column_recognized_succeeds [OF _ ne this] c assms(2)
    show "\<exists>s. fillna_column ?df1 None None c = Inr s" by blast
  qed
  from fillna_loop_succeeds [OF wf_frame_distinct [OF assms(1)] this]
  show ?thesis by (simp only: fillna_with_close [OF cl])
next
  case False
  let ?k = "LineTypeEnum_name closeTick"
  have "\<forall>c\<in>set (column_names df). c \<noteq> ?k \<longrightarrow> (\<exists>s. fillna_column df None None c = Inr s)"
  proof (intro ballI impI)
    fix c assume c: "c \<in> set (column_names df)" and ne: "c \<noteq> ?k"
    from column_getitem [OF c] obtain s where "getitem df c = Inr s" by auto
    from fillna_column_recognized_succeeds [OF _ ne this] c assms(2)
    show "\<exists>s. fillna_column df None None c = Inr s" by blast
  qed
  from fillna_loop_succeeds [OF wf_frame_distinct [OF assms(1)] this]
  show ?thesis by (simp only: fillna_without_close [OF False])
qed

lemma fillna_succeeds_ticks_only:
  assumes "wf_frame df" and "set (column_names df) \<subseteq> set tick_columns"
  shows "\<exists>df'. fillna df None m = Inr df'"
proof -
  let ?k = "LineTypeEnum_name closeTick"
  from assms(2) have nk: "?k \<notin> set (column_names df)"
    by (auto simp: tick_columns_def)
  have "\<forall>c\<in>set (column_names df). c \<noteq> ?k \<longrightarrow> (\<exists>s. fillna_column df None m c = Inr s)"
  proof (intro ballI impI)
    fix c assume c: "c \<in> set (column_names df)"
    with assms(2) have tick: "c \<in> set tick_columns" by auto
    from column_getitem [OF c] obtain s where "getitem df c = Inr s" by auto
    with fillna_column_tick_no_close [OF tick nk, of None m]
    show "\<exists>s. fillna_column df None m c = Inr s"
      by (simp add: Series_fillna_ffill_None)
  qed
  from fillna_loop_succeeds [OF wf_frame_distinct [OF assms(1)] this]
  show ?thesis by (simp only: fillna_without_close [OF nk])
qed

text \<open>
  C3, as stated, on a resampled table. The first raw record has no closing tick, so the
  first bar has none, and forward fill has nothing to carry into it: after \<open>fillna\<close> the
  columns \<open>closeTick\<close> and \<open>openTick\<close> still miss their first cell. With a default method or a
  default value from the caller, the call raises instead of returning a table.
\<close>

theorem fillna_gap_counterexample:
  "resample gap_raw_example minute_bar sum_list no_named_agg None = Inr gap_bars_example
   \<and> fillna gap_bars_example None None = Inr gap_filled_example
   \<and> getitem gap_filled_example ''closeTick'' = Inr [None, Some 5, Some 5, Some 8]
   \<and> getitem gap_filled_example ''openTick'' = Inr [None, Some 4, Some 5, Some 6]
   \<and> fillna gap_bars_example None (Some ''ffill'') = Inl Cannot_specify_both_value_and_method
   \<and> fillna gap_bars_example (Some (Scalar 0)) None = Inl Cannot_specify_both_value_and_method"
  by code_simp

text \<open>
  C3 (amended). For a well-formed bar table: when every column is a recognized one and the
  caller gives neither a default value nor a default method, \<open>fillna\<close> returns. Whenever
  \<open>fillna\<close> returns, the columns with fill value zero contain no missing value; a cell of
  \<open>closeTick\<close> or \<open>currentLiquidity\<close> is missing only if every cell of that column up to that
  bar was missing in the input; a cell of \<open>openTick\<close>, \<open>highestTick\<close> or \<open>lowestTick\<close> is missing
  only if it was missing in the input and every closing tick up to that bar was missing
  (without a closing-tick column: every cell of the column itself up to that bar); and an
  unrecognized column is the result of pandas' \<open>fillna\<close> with the caller's value and method.
\<close>

theorem fillna_completeness:
  assumes "wf_frame df"
  shows "(set (column_names df) \<subseteq> set recognized_columns \<longrightarrow>
            (\<exists>df'. fillna df None None = Inr df'))
       \<and> (\<forall>df' c s. fillna df v m = Inr df' \<and> getitem df c = Inr s \<longrightarrow>
            (\<exists>s'. getitem df' c = Inr s' \<and> length s' = length s
               \<and> (c \<in> set zero_fill_columns \<longrightarrow> None \<notin> set s')
               \<and> (c = LineTypeEnum_name closeTick \<or> c = LineTypeEnum_name currentLiquidity \<longrightarrow>
                    (\<forall>i<length s. s' ! i = None \<longrightarrow> (\<forall>j\<le>i. s ! j = None)))
               \<and> (c \<in> set tick_columns \<longrightarrow>
                    (\<forall>i<length s. s' ! i = None \<longrightarrow>
                       s ! i = None
                     \<and> (\<forall>j\<le>i. (case getitem df (LineTypeEnum_name closeTick) of
                                   Inr close \<Rightarrow> close | Inl e \<Rightarrow> s) ! j = None)))
               \<and> (c \<notin> set recognized_columns \<longrightarrow> Series_fillna s v m = Inr s')))"
proof (intro conjI allI impI)
  assume "set (column_names df) \<subseteq> set recognized_columns"
  then show "\<exists>df'. fillna df None None = Inr df'"
    by (rule fillna_succeeds_without_defaults [OF assms])
next
  fix df' c s
  assume "fillna df v m = Inr df' \<and> getitem df c = Inr s"
  then have ok: "fillna df v m = Inr df'" and s: "getitem df c = Inr s" by simp_all
  let ?k = "LineTypeEnum_name closeTick"
  let ?l = "LineTypeEnum_name currentLiquidity"
  let ?source = "case getitem df ?k of Inr close \<Rightarrow> close | Inl e \<Rightarrow> s"
  let ?post = "\<lambda>s'. getitem df' c = Inr s' \<and> length s' = length s
               \<and> (c \<in> set zero_fill_columns \<longrightarrow> None \<notin> set s')
               \<and> (c = ?k \<or> c = ?l \<longrightarrow>
                    (\<forall>i<length s. s' ! i = None \<longrightarrow> (\<forall>j\<le>i. s ! j = None)))
               \<and> (c \<in> set tick_columns \<longrightarrow>
                    (\<forall>i<length s. s' ! i = None \<longrightarrow>
                       s ! i = None \<and> (\<forall>j\<le>i. ?source ! j = None)))
               \<and> (c \<notin> set recognized_columns \<longrightarrow> Series_fillna s v m = Inr s')"
  have ffilled: "?post (ffill None s)"
    if g: "getitem df' c = Inr (ffill None s)" and kind: "c = ?k \<or> c = ?l
        \<or> (c \<in> set tick_columns \<and> ?k \<notin> set (column_names df))"
  proof -
    have gaps: "\<forall>i<length s. ffill None s ! i = None \<longrightarrow> (\<forall>j\<le>i. s ! j = None)"
      by (simp add: ffill_None_iff)
    have src: "c \<in> set tick_columns \<Longrightarrow> ?source = s"
    proof -
      assume "c \<in> set tick_columns"
      with kind have "?k \<notin> set (column_names df)"
        by (auto simp: tick_columns_def)
      then have "getitem df ?k = Inl (KeyError ?k)"
        by (rule getitem_absent)
      then show ?thesis by simp
    qed
    have z: "c \<notin> set zero_fill_columns" "c \<in> set recognized_columns"
      using kind by (auto simp: zero_fill_columns_def recognized_columns_def tick_columns_def)
    from g gaps src z show ?thesis
      by (simp add: length_ffill)
  qed
  show "\<exists>s'. ?post s'"
  proof (cases "c \<in> set recognized_columns")
    case False
    from fillna_generic_cell [OF assms ok s False]
    have g: "getitem df' c = Series_fillna s v m" .
    from fillna_cell [OF assms ok s kinds_disjoint(4) [OF False]]
    obtain s' where s': "getitem df' c = Inr s'" by blast
    with g have f: "Series_fillna s v m = Inr s'" by simp
    from False have "c \<notin> set zero_fill_columns" "c \<notin> set tick_columns" "c \<noteq> ?k" "c \<noteq> ?l"
      by (auto simp: recognized_columns_def)
    with s' f Series_fillna_length [OF f] have "?post s'" by simp
    then show ?thesis ..
  next
    case True
    then show ?thesis
    proof (cases rule: recognized_cases)
      case 1
      with s have cl: "getitem df ?k = Inr s" by simp
      from fillna_cells_with_close(1) [OF assms cl ok] 1
      have "getitem df' c = Inr (ffill None s)" by simp
      from ffilled [OF this] 1 show ?thesis by blast
    next
      case 4
      with s have "getitem df ?l = Inr s" by simp
      from fillna_liquidity_cell [OF assms ok this] 4
      have "getitem df' c = Inr (ffill None s)" by simp
      from ffilled [OF this] 4 show ?thesis by blast
    next
      case 3
      from fillna_zero_cell [OF assms ok s 3]
      have g: "getitem df' c = Inr (fill_scalar s 0)" by simp
      from 3 have "c \<notin> set tick_columns" "c \<noteq> ?k" "c \<noteq> ?l"
        by (auto simp: zero_fill_columns_def tick_columns_def)
      with g True have "?post (fill_scalar s 0)"
        by (simp add: length_fill_scalar fill_scalar_complete)
      then show ?thesis ..
    next
      case 2
      show ?thesis
      proof (cases "?k \<in> set (column_names df)")
        case False
        from fillna_tick_cell_no_close [OF assms ok s 2 False]
        have "getitem df' c = Inr (ffill None s)" by simp
        from ffilled [OF this] 2 False show ?thesis by blast
      next
        case present: True
        from column_getitem [OF present] obtain close where cl: "getitem df ?k = Inr close"
          by blast
        from fillna_tick_cell_close [OF assms ok s 2 cl]
        have g: "getitem df' c = Inr (fill_from s (ffill None close))" .
        have len: "length (ffill None close) = length s"
          using getitem_length [OF assms s] getitem_length [OF assms cl]
          by (simp add: length_ffill)
        then have len': "length close = length s" by (simp add: length_ffill)
        have gaps: "\<forall>i<length s. fill_from s (ffill None close) ! i = None \<longrightarrow>
                      s ! i = None \<and> (\<forall>j\<le>i. close ! j = None)"
        proof (intro allI impI)
          fix i assume i: "i < length s" and n: "fill_from s (ffill None close) ! i = None"
          from n have "(case s ! i of None \<Rightarrow> ffill None close ! i | Some x \<Rightarrow> Some x) = None"
            by (simp add: fill_from_nth [OF i len])
          then have a: "s ! i = None" and b: "ffill None close ! i = None"
            by (auto split: option.splits)
          from i len' have "i < length close" by simp
          from ffill_None_iff [OF this, of None] b have "\<forall>j\<le>i. close ! j = None" by simp
          with a show "s ! i = None \<and> (\<forall>j\<le>i. close ! j = None)" by simp
        qed
        from 2 have "c \<notin> set zero_fill_columns" "c \<noteq> ?k" "c \<noteq> ?l"
          by (auto simp: zero_fill_columns_def tick_columns_def)
        with g gaps True cl have "?post (fill_from s (ffill None close))"
          by (simp add: length_fill_from)
        then show ?thesis ..
      qed
    qed
  qed
qed

theorem fillna_completeness_witness:
  "wf_frame bars_example
   \<and> set (column_names bars_example) \<subseteq> set recognized_columns
   \<and> fillna bars_example None None = Inr filled_example
   \<and> getitem bars_example ''netAmount0'' = Inr [Some 5, None, None]
   \<and> ''netAmount0'' \<in> set zero_fill_columns
   \<and> getitem filled_example ''netAmount0'' = Inr [Some 5, Some 0, Some 0]
   \<and> None \<notin> set [Some 5, Some 0, Some (0::int)]"
proof -
  have h1: "wf_frame bars_example" by code_simp
  have r: "set (column_names bars_example) \<subseteq> set recognized_columns" by code_simp
  have ok: "fillna bars_example None None = Inr filled_example" by code_simp
  have g: "getitem bars_example ''netAmount0'' = Inr [Some 5, None, None]" by code_simp
  have z: "''netAmount0'' \<in> set zero_fill_columns" by code_simp
  have f: "getitem filled_example ''netAmount0'' = Inr [Some 5, Some 0, Some 0]" by code_simp
  from fillna_completeness [OF h1, of None None, THEN conjunct2, rule_format, OF conjI [OF ok g]]
  obtain s' where "getitem filled_example ''netAmount0'' = Inr s'"
    and "''netAmount0'' \<in> set zero_fill_columns \<longrightarrow> None \<notin> set s'"
    by blast
  with f z have "None \<notin> set [Some 5, Some 0, Some (0::int)]" by simp
  with h1 r ok g z f show ?thesis by blast
qed

text \<open>
  C7, as stated, on a table whose only column is \<open>openTick\<close>. With the caller's default
  method \<open>bfill\<close> the column is forward-filled (\<open>[1, 1, 3]\<close>), not filled by the caller's
  method (\<open>[1, 3, 3]\<close>); with a default value from the caller the call raises.
\<close>

theorem fillna_no_close_counterexample:
  "LineTypeEnum_name closeTick \<notin> set (column_names ticks_only_example)
   \<and> fillna ticks_only_example None (Some ''bfill'')
       = Inr \<lparr> index = [0, 1, 2], columns = [(''openTick'', [Some 1, Some 1, Some 3])] \<rparr>
   \<and> Series_fillna [Some 1, None, Some 3] None (Some ''bfill'') = Inr [Some 1, Some 3, Some 3]
   \<and> fillna ticks_only_example (Some (Scalar 0)) None = Inl Cannot_specify_both_value_and_method"
  by code_simp

text \<open>
  C7 (amended). If the closing-tick column is absent, \<open>fillna\<close> skips the first pass and
  runs the loop on the input as it is; a table of tick-derived columns is filled without
  failure when the caller gives no default value; and whenever \<open>fillna\<close> returns, each of
  \<open>openTick\<close>, \<open>highestTick\<close>, \<open>lowestTick\<close> is forward-filled by its registered rule, whatever
  the caller's default method.
\<close>

theorem fillna_without_closing_tick:
  assumes "wf_frame df" and "LineTypeEnum_name closeTick \<notin> set (column_names df)"
  shows "fillna df v m = fillna_loop (column_names df) df v m
       \<and> (set (column_names df) \<subseteq> set tick_columns \<longrightarrow> (\<exists>df'. fillna df None m = Inr df'))
       \<and> (\<forall>df' c s. fillna df v m = Inr df' \<and> c \<in> set tick_columns \<and> getitem df c = Inr s \<longrightarrow>
             getitem df' c = Inr (ffill None s))"
proof (intro conjI allI impI)
  show "fillna df v m = fillna_loop (column_names df) df v m"
    by (rule fillna_without_close [OF assms(2)])
next
  assume "set (column_names df) \<subseteq> set tick_columns"
  then show "\<exists>df'. fillna df None m = Inr df'"
    by (rule fillna_succeeds_ticks_only [OF assms(1)])
next
  fix df' c s
  assume "fillna df v m = Inr df' \<and> c \<in> set tick_columns \<and> getitem df c = Inr s"
  then have ok: "fillna df v m = Inr df'" and tick: "c \<in> set tick_columns"
    and s: "getitem df c = Inr s" by simp_all
  from fillna_tick_cell_no_close [OF assms(1) ok s tick assms(2)]
  show "getitem df' c = Inr (ffill None s)" by simp
qed

theorem fillna_without_closing_tick_witness:
  "wf_frame ticks_only_example
   \<and> LineTypeEnum_name closeTick \<notin> set (column_names ticks_only_example)
   \<and> set (column_names ticks_only_example) \<subseteq> set tick_columns
   \<and> ''openTick'' \<in> set tick_columns
   \<and> getitem ticks_only_example ''openTick'' = Inr [Some 1, None, Some 3]
   \<and> fillna ticks_only_example None (Some ''bfill'')
       = Inr \<lparr> index = [0, 1, 2], columns = [(''openTick'', [Some 1, Some 1, Some 3])] \<rparr>
   \<and> getitem \<lparr> index = [0, 1, 2], columns = [(''openTick'', [Some 1, Some 1, Some 3])] \<rparr>
        ''openTick'' = Inr [Some 1, Some 1, Some 3]"
proof -
  let ?out = "\<lparr> index = [0, 1, 2], columns = [(''openTick'', [Some 1, Some 1, Some 3])] \<rparr>"
  have h1: "wf_frame ticks_only_example" by code_simp
  have h2: "LineTypeEnum_name closeTick \<notin> set (column_names ticks_only_example)" by code_simp
  have h3: "set (column_names ticks_only_example) \<subseteq> set tick_columns" by code_simp
  have t: "''openTick'' \<in> set tick_columns" by code_simp
  have g: "getitem ticks_only_example ''openTick'' = Inr [Some 1, None, Some 3]" by code_simp
  have ok: "fillna ticks_only_example None (Some ''bfill'') = Inr ?out" by code_simp
  from fillna_without_closing_tick [OF h1 h2, of None "Some ''bfill''", THEN conjunct2,
      THEN conjunct2, rule_format, OF conjI [OF ok conjI [OF t g]]]
  have "getitem ?out ''openTick'' = Inr (ffill None [Some 1, None, Some 3])" .
  then have "getitem ?out ''openTick'' = Inr [Some 1, Some 1, Some 3]" by simp
  with h1 h2 h3 t g ok show ?thesis by blast
qed

text \<open>
  C6 at a default method. For the column \<open>netAmount0\<close> with a missing cell, \<open>fillna\<close> with
  \<open>method = "ffill"\<close> raises pandas' error for a call with both a value and a method,
  where the claim has the cell filled with zero. Without a default method the cell is
  filled with zero, whatever the caller's default value.
\<close>

theorem fillna_zero_column_with_method:
  "fillna flows_example None (Some ''ffill'') = Inl Cannot_specify_both_value_and_method
   \<and> fillna flows_example None None
       = Inr \<lparr> index = [0, 1, 2], columns = [(''netAmount0'', [Some 5, Some 0, Some 2])] \<rparr>
   \<and> fillna flows_example (Some (Scalar 7)) None
       = Inr \<lparr> index = [0, 1, 2], columns = [(''netAmount0'', [Some 5, Some 0, Some 2])] \<rparr>"
  by code_simp

end
